theory Spec2Isabelle
  imports
    Main
    "HOL-Library.Char_ord"
    "HOL-Library.List_Lexorder"
    "HOL-Library.Product_Lexorder"
    "HOL-Library.Sublist"
    "HOL-Library.Multiset"
begin

section \<open>Python strings\<close>

text \<open>
  A Python \<open>str\<close> is modelled as a \<open>string\<close>: a list of characters with code points
  below 256. The string methods below are the ones \<open>python_project_mcp.py\<close> calls, with
  the meaning CPython gives them on such text.

  \<open>str.isspace\<close> holds, below 256, of the code points 9 to 13, 28 to 32, 133 and 160;
  \<open>str.strip()\<close>, \<open>str.split()\<close> and the regular expression class \<open>\s\<close> all use it.
\<close>

definition whitespace_chars :: "char list" where
  "whitespace_chars =
     [CHR 0x09, CHR 0x0A, CHR 0x0B, CHR 0x0C, CHR 0x0D, CHR 0x1C, CHR 0x1D, CHR 0x1E,
      CHR 0x1F, CHR 0x20, CHR 0x85, CHR 0xA0]"

definition isspace :: "char \<Rightarrow> bool" where
  "isspace c = (c \<in> set whitespace_chars)"

definition NL :: char where
  "NL = CHR 0x0A"

definition DQUOTE :: char where
  "DQUOTE = CHR 0x22"

definition SQUOTE :: char where
  "SQUOTE = CHR 0x27"

text \<open>\<open>s.strip()\<close> and \<open>s.strip(chars)\<close>.\<close>

definition strip_with :: "(char \<Rightarrow> bool) \<Rightarrow> string \<Rightarrow> string" where
  "strip_with P s = rev (dropWhile P (rev (dropWhile P s)))"

definition strip :: "string \<Rightarrow> string" where
  "strip s = strip_with isspace s"

definition strip_chars :: "string \<Rightarrow> string \<Rightarrow> string" where
  "strip_chars cs s = strip_with (\<lambda>c. c \<in> set cs) s"

text \<open>\<open>s.startswith(p)\<close>, \<open>s.endswith(p)\<close> and the substring test \<open>q in s\<close>.\<close>

definition startswith :: "string \<Rightarrow> string \<Rightarrow> bool" where
  "startswith s p = prefix p s"

definition endswith :: "string \<Rightarrow> string \<Rightarrow> bool" where
  "endswith s p = suffix p s"

fun str_in :: "string \<Rightarrow> string \<Rightarrow> bool" where
  "str_in q [] = (q = [])"
| "str_in q (x # xs) = (prefix q (x # xs) \<or> str_in q xs)"

text \<open>
  \<open>s.lower()\<close>: below 256 the upper-case letters are A to Z and the code points 192 to 222
  but 215, each 32 below its lower-case letter; every other character is kept.
\<close>

definition upper_chars :: "char list" where
  "upper_chars = ''ABCDEFGHIJKLMNOPQRSTUVWXYZ'' @
     [CHR 0xC0, CHR 0xC1, CHR 0xC2, CHR 0xC3, CHR 0xC4, CHR 0xC5, CHR 0xC6, CHR 0xC7,
      CHR 0xC8, CHR 0xC9, CHR 0xCA, CHR 0xCB, CHR 0xCC, CHR 0xCD, CHR 0xCE, CHR 0xCF,
      CHR 0xD0, CHR 0xD1, CHR 0xD2, CHR 0xD3, CHR 0xD4, CHR 0xD5, CHR 0xD6,
      CHR 0xD8, CHR 0xD9, CHR 0xDA, CHR 0xDB, CHR 0xDC, CHR 0xDD, CHR 0xDE]"

definition lower_chars :: "char list" where
  "lower_chars = ''abcdefghijklmnopqrstuvwxyz'' @
     [CHR 0xE0, CHR 0xE1, CHR 0xE2, CHR 0xE3, CHR 0xE4, CHR 0xE5, CHR 0xE6, CHR 0xE7,
      CHR 0xE8, CHR 0xE9, CHR 0xEA, CHR 0xEB, CHR 0xEC, CHR 0xED, CHR 0xEE, CHR 0xEF,
      CHR 0xF0, CHR 0xF1, CHR 0xF2, CHR 0xF3, CHR 0xF4, CHR 0xF5, CHR 0xF6,
      CHR 0xF8, CHR 0xF9, CHR 0xFA, CHR 0xFB, CHR 0xFC, CHR 0xFD, CHR 0xFE]"

definition lower_char :: "char \<Rightarrow> char" where
  "lower_char c = (case map_of (zip upper_chars lower_chars) c of None \<Rightarrow> c | Some l \<Rightarrow> l)"

definition lower :: "string \<Rightarrow> string" where
  "lower s = map lower_char s"

text \<open>\<open>s.split(c)\<close> for a separator of one character: one more piece than separators.\<close>

function split_on :: "char \<Rightarrow> string \<Rightarrow> string list" where
  "split_on c s =
     (case dropWhile (\<lambda>x. x \<noteq> c) s of
        [] \<Rightarrow> [s]
      | _ # r \<Rightarrow> takeWhile (\<lambda>x. x \<noteq> c) s # split_on c r)"
  by pat_completeness auto
termination
proof (relation "measure (\<lambda>(c, s). length s)")
  show "wf (measure (\<lambda>(c :: char, s :: string). length s))" by simp
next
  fix c :: char and s :: string and x r
  assume "dropWhile (\<lambda>x. x \<noteq> c) s = x # r"
  then have "length r < length s"
    using length_dropWhile_le [of "\<lambda>x. x \<noteq> c" s] by simp
  then show "((c, r), (c, s)) \<in> measure (\<lambda>(c, s). length s)" by simp
qed

declare split_on.simps [simp del]

text \<open>
  \<open>s.split()\<close>: the maximal runs of characters that are not white space; no empty piece.
\<close>

function split_ws :: "string \<Rightarrow> string list" where
  "split_ws s =
     (case dropWhile isspace s of
        [] \<Rightarrow> []
      | x # r \<Rightarrow> takeWhile (\<lambda>c. \<not> isspace c) (x # r) # split_ws (dropWhile (\<lambda>c. \<not> isspace c) (x # r)))"
  by pat_completeness auto
termination
proof (relation "measure length")
  show "wf (measure length)" by simp
next
  fix s :: string and x r
  assume d: "dropWhile isspace s = x # r"
  then have nx: "\<not> isspace x"
    using hd_dropWhile [of isspace s] by simp
  have "length (dropWhile (\<lambda>c. \<not> isspace c) (x # r)) \<le> length r"
    using nx length_dropWhile_le [of "\<lambda>c. \<not> isspace c" r] by simp
  moreover have "length r < length s"
    using d length_dropWhile_le [of isspace s] by simp
  ultimately show "(dropWhile (\<lambda>c. \<not> isspace c) (x # r), s) \<in> measure length"
    by simp
qed

declare split_ws.simps [simp del]

text \<open>
  \<open>s.split(sep)[0]\<close> for a separator of any length: the text before the first occurrence
  of \<open>sep\<close>, all of \<open>s\<close> when there is none.
\<close>

fun before_first :: "string \<Rightarrow> string \<Rightarrow> string" where
  "before_first sep [] = []"
| "before_first sep (x # xs) = (if prefix sep (x # xs) then [] else x # before_first sep xs)"

text \<open>\<open>sep.join(xs)\<close>.\<close>

fun join :: "string \<Rightarrow> string list \<Rightarrow> string" where
  "join sep [] = []"
| "join sep [x] = x"
| "join sep (x # y # ys) = x @ sep @ join sep (y # ys)"

text \<open>\<open>str(n)\<close> for an integer, in decimal.\<close>

definition digit_char :: "nat \<Rightarrow> char" where
  "digit_char d = ''0123456789'' ! d"

fun str_nat :: "nat \<Rightarrow> string" where
  "str_nat n = (if n < 10 then [digit_char n] else str_nat (n div 10) @ [digit_char (n mod 10)])"

declare str_nat.simps [simp del]

definition str_int :: "int \<Rightarrow> string" where
  "str_int i = (if i < 0 then ''-'' @ str_nat (nat (- i)) else str_nat (nat i))"

section \<open>Errors\<close>

text \<open>
  An exception is a value: its class and the text \<open>str(e)\<close> gives. The texts of the
  exceptions the program raises itself are the program's; those of the operating system
  and of \<open>pathlib\<close> follow CPython on POSIX, with a file name quoted as it stands.
\<close>

datatype pyerr =
    FileNotFoundError string
  | ValueError string
  | PermissionError string
  | IsADirectoryError string
  | NotADirectoryError string
  | IndexError string

fun err_str :: "pyerr \<Rightarrow> string" where
  "err_str (FileNotFoundError m) = m"
| "err_str (ValueError m) = m"
| "err_str (PermissionError m) = m"
| "err_str (IsADirectoryError m) = m"
| "err_str (NotADirectoryError m) = m"
| "err_str (IndexError m) = m"

definition quoted :: "string \<Rightarrow> string" where
  "quoted s = [SQUOTE] @ s @ [SQUOTE]"

section \<open>Paths\<close>

text \<open>
  A \<open>pathlib.Path\<close> on POSIX: its anchor (empty for a relative path, one slash, or two
  for a path written with exactly two leading slashes) and the components after it.
  \<open>Path(s)\<close> drops empty components and single dots and keeps \<open>..\<close>.
\<close>

datatype pypath = Path (anchor: string) (rel_parts: "string list")

definition path_anchor :: "string \<Rightarrow> string" where
  "path_anchor s =
     (if startswith s ''///'' then ''/''
      else if startswith s ''//'' then ''//''
      else if startswith s ''/'' then ''/''
      else [])"

definition parse_path :: "string \<Rightarrow> pypath" where
  "parse_path s =
     Path (path_anchor s) (filter (\<lambda>c. c \<noteq> [] \<and> c \<noteq> ''.'') (split_on CHR ''/'' s))"

text \<open>\<open>p.parts\<close>, \<open>str(p)\<close>, \<open>p.name\<close>, \<open>p.is_absolute()\<close>, \<open>p / q\<close> and \<open>p / name\<close>.\<close>

definition parts :: "pypath \<Rightarrow> string list" where
  "parts p = (if anchor p = [] then [] else [anchor p]) @ rel_parts p"

definition str_path :: "pypath \<Rightarrow> string" where
  "str_path p =
     (if anchor p = [] \<and> rel_parts p = [] then ''.'' else anchor p @ join ''/'' (rel_parts p))"

definition path_name :: "pypath \<Rightarrow> string" where
  "path_name p = (if rel_parts p = [] then [] else last (rel_parts p))"

definition is_absolute :: "pypath \<Rightarrow> bool" where
  "is_absolute p = (anchor p \<noteq> [])"

definition joinpath :: "pypath \<Rightarrow> pypath \<Rightarrow> pypath" where
  "joinpath p q = (if is_absolute q then q else Path (anchor p) (rel_parts p @ rel_parts q))"

definition child :: "pypath \<Rightarrow> string \<Rightarrow> pypath" where
  "child p name = joinpath p (parse_path name)"

text \<open>
  \<open>p.suffix\<close>: the name from its last dot on, when that dot is neither the first nor the
  last character of the name.
\<close>

definition name_suffix :: "string \<Rightarrow> string" where
  "name_suffix name =
     (let after = rev (takeWhile (\<lambda>c. c \<noteq> CHR ''.'') (rev name)) in
      if CHR ''.'' \<in> set name \<and> after \<noteq> [] \<and> length after + 1 < length name
      then CHR ''.'' # after else [])"

text \<open>
  \<open>p.relative_to(other)\<close> compares the written components only: it raises
  \<open>ValueError\<close> unless the anchors are equal and the components of \<open>other\<close> begin those
  of \<open>p\<close>.
\<close>

definition relative_to :: "pypath \<Rightarrow> pypath \<Rightarrow> pyerr + pypath" where
  "relative_to p other =
     (if anchor p = anchor other \<and> prefix (rel_parts other) (rel_parts p)
      then Inr (Path [] (drop (length (rel_parts other)) (rel_parts p)))
      else Inl (ValueError (quoted (str_path p) @ '' is not in the subpath of ''
                  @ quoted (str_path other))))"

section \<open>The file system\<close>

text \<open>
  The tree the operating system shows the program during one call. A file has the size
  \<open>stat\<close> reports and the text that opening and reading it yields (after the decoding
  with UTF-8 and, failing that, Latin-1, which accepts every byte), or no text when it
  may not be opened. A directory has a size, the permission to list it, and its entries
  in the order the operating system lists them. Symbolic links and directories that may
  not be traversed are not modelled.
\<close>

datatype node =
    File nat "string option"
  | Dir nat bool "(string \<times> node) list"

fun st_size :: "node \<Rightarrow> nat" where
  "st_size (File sz t) = sz"
| "st_size (Dir sz l es) = sz"

fun is_dir_node :: "node \<Rightarrow> bool" where
  "is_dir_node (File sz t) = False"
| "is_dir_node (Dir sz l es) = True"

definition is_file_node :: "node \<Rightarrow> bool" where
  "is_file_node n = (\<not> is_dir_node n)"

text \<open>
  What the process sees: the tree at \<open>/\<close>, the working directory, the orders in
  which this process iterates the three sets of strings the program declares (Python
  fixes the order of a set of strings per process, not per program), and the standard
  library's \<open>fnmatch.fnmatch(name, pattern)\<close>, which the program calls and does not
  define.
\<close>

record env =
  fs :: node
  cwd :: "string list"
  py_ext_order :: "string list"
  doc_ext_order :: "string list"
  req_order :: "string list"
  fnmatch :: "string \<Rightarrow> string \<Rightarrow> bool"

text \<open>
  Walking the components of a path from a node, with the directories above it at hand:
  \<open>..\<close> steps up (and stays at the top), a name steps into the entry of that name, and
  nothing lies below a file.
\<close>

fun walk :: "node list \<Rightarrow> node \<Rightarrow> string list \<Rightarrow> node option" where
  "walk ups n [] = Some n"
| "walk ups (File sz t) (c # cs) = None"
| "walk ups (Dir sz l es) (c # cs) =
     (if c = ''..'' then
        (case ups of
           [] \<Rightarrow> walk [] (Dir sz l es) cs
         | u # us \<Rightarrow> walk us u cs)
      else
        (case map_of es c of
           None \<Rightarrow> None
         | Some m \<Rightarrow> walk (Dir sz l es # ups) m cs))"

definition lookup :: "env \<Rightarrow> pypath \<Rightarrow> node option" where
  "lookup e p = walk [] (fs e) ((if is_absolute p then [] else cwd e) @ rel_parts p)"

definition path_exists :: "env \<Rightarrow> pypath \<Rightarrow> bool" where
  "path_exists e p = (lookup e p \<noteq> None)"

definition is_dir :: "env \<Rightarrow> pypath \<Rightarrow> bool" where
  "is_dir e p = (case lookup e p of None \<Rightarrow> False | Some n \<Rightarrow> is_dir_node n)"

text \<open>\<open>Path(s).resolve()\<close>: absolute, with the \<open>..\<close> components taken out.\<close>

fun normalize :: "string list \<Rightarrow> string list \<Rightarrow> string list" where
  "normalize acc [] = rev acc"
| "normalize acc (c # cs) =
     (if c = ''..'' then normalize (case acc of [] \<Rightarrow> [] | d # ds \<Rightarrow> ds) cs
      else normalize (c # acc) cs)"

definition resolve :: "env \<Rightarrow> pypath \<Rightarrow> pypath" where
  "resolve e p = Path ''/'' (normalize [] ((if is_absolute p then [] else cwd e) @ rel_parts p))"

text \<open>
  \<open>p.iterdir()\<close>, \<open>p.glob("*" + ext)\<close> and \<open>p.rglob("*" + ext)\<close>. The pattern matches
  the names that end with \<open>ext\<close>, of files and of directories. Globbing passes over what
  it may not list; \<open>rglob\<close> yields the matches of a directory before those below it.
\<close>

definition no_such_file :: "pypath \<Rightarrow> pyerr" where
  "no_such_file p =
     FileNotFoundError (''[Errno 2] No such file or directory: '' @ quoted (str_path p))"

definition not_a_directory :: "pypath \<Rightarrow> pyerr" where
  "not_a_directory p = NotADirectoryError (''[Errno 20] Not a directory: '' @ quoted (str_path p))"

definition is_a_directory :: "pypath \<Rightarrow> pyerr" where
  "is_a_directory p = IsADirectoryError (''[Errno 21] Is a directory: '' @ quoted (str_path p))"

definition permission_denied :: "pypath \<Rightarrow> pyerr" where
  "permission_denied p = PermissionError (''[Errno 13] Permission denied: '' @ quoted (str_path p))"

definition iterdir :: "env \<Rightarrow> pypath \<Rightarrow> pyerr + (pypath \<times> node) list" where
  "iterdir e p =
     (case lookup e p of
        None \<Rightarrow> Inl (no_such_file p)
      | Some (File sz t) \<Rightarrow> Inl (not_a_directory p)
      | Some (Dir sz l es) \<Rightarrow>
          if l then Inr (map (\<lambda>(name, n). (child p name, n)) es)
          else Inl (permission_denied p))"

definition glob_node :: "string \<Rightarrow> pypath \<Rightarrow> node \<Rightarrow> pypath list" where
  "glob_node ext p n =
     (case n of
        File sz t \<Rightarrow> []
      | Dir sz l es \<Rightarrow>
          if l then map (\<lambda>(name, m). child p name) (filter (\<lambda>(name, m). endswith name ext) es)
          else [])"

definition glob :: "env \<Rightarrow> pypath \<Rightarrow> string \<Rightarrow> pypath list" where
  "glob e p ext = (case lookup e p of None \<Rightarrow> [] | Some n \<Rightarrow> glob_node ext p n)"

fun rglob_node :: "string \<Rightarrow> pypath \<Rightarrow> node \<Rightarrow> pypath list" where
  "rglob_node ext p (File sz t) = []"
| "rglob_node ext p (Dir sz l es) =
     (if l then
        glob_node ext p (Dir sz l es)
        @ concat (map (\<lambda>(name, m). rglob_node ext (child p name) m) es)
      else [])"

definition rglob :: "env \<Rightarrow> pypath \<Rightarrow> string \<Rightarrow> pypath list" where
  "rglob e p ext = (case lookup e p of None \<Rightarrow> [] | Some n \<Rightarrow> rglob_node ext p n)"

section \<open>The program's constants\<close>

definition PYTHON_EXTENSIONS :: "string list" where
  "PYTHON_EXTENSIONS = [''.py'', ''.pyx'', ''.pyi'']"

definition CONFIG_EXTENSIONS :: "string list" where
  "CONFIG_EXTENSIONS = [''.toml'', ''.cfg'', ''.ini'', ''.yaml'', ''.yml'', ''.json'']"

definition DOC_EXTENSIONS :: "string list" where
  "DOC_EXTENSIONS = [''.md'', ''.rst'', ''.txt'']"

definition REQUIREMENTS_FILES :: "string list" where
  "REQUIREMENTS_FILES =
     [''requirements.txt'', ''requirements-dev.txt'', ''pyproject.toml'', ''setup.py'',
      ''setup.cfg'', ''Pipfile'']"

definition EXCLUDE_DIRS :: "string list" where
  "EXCLUDE_DIRS =
     [''__pycache__'', ''.git'', ''.svn'', ''.hg'', ''.bzr'',
      ''.tox'', ''.pytest_cache'', ''.mypy_cache'', ''.coverage'',
      ''node_modules'', ''.venv'', ''venv'', ''env'', ''.env'',
      ''build'', ''dist'', ''.egg-info'', ''.eggs'', ''htmlcov'']"

definition MAX_FILE_SIZE :: nat where
  "MAX_FILE_SIZE = 1024 * 1024"

text \<open>
  An environment iterates each of the three sets in some order of its elements.
\<close>

definition wf_env :: "env \<Rightarrow> bool" where
  "wf_env e =
     (mset (py_ext_order e) = mset PYTHON_EXTENSIONS
      \<and> mset (doc_ext_order e) = mset DOC_EXTENSIONS
      \<and> mset (req_order e) = mset REQUIREMENTS_FILES)"

text \<open>
  The icons are string literals of the source with code points above 255; each is
  written here as the bytes of its UTF-8 encoding, as the source file stores it.
\<close>

definition ICON_FOLDER :: string where
  "ICON_FOLDER = [CHR 0xEF, CHR 0xA3, CHR 0xBF, CHR 0xC3, CHR 0xBC, CHR 0xC3, CHR 0xAC, CHR 0xC3, CHR 0x85]"

definition ICON_DENIED :: string where
  "ICON_DENIED = [CHR 0xE2, CHR 0x80, CHR 0x9A, CHR 0xC3, CHR 0xB9, CHR 0xC3, CHR 0xA5]"

definition ICON_PYTHON :: string where
  "ICON_PYTHON = [CHR 0xEF, CHR 0xA3, CHR 0xBF, CHR 0xC3, CHR 0xBC, CHR 0xC3, CHR 0xAA, CHR 0xC3, CHR 0xA7]"

definition ICON_CONFIG :: string where
  "ICON_CONFIG =
     [CHR 0xE2, CHR 0x80, CHR 0x9A, CHR 0xC3, CHR 0xB6, CHR 0xC3, CHR 0xB4, CHR 0xC3, CHR 0x94,
      CHR 0xE2, CHR 0x88, CHR 0x8F, CHR 0xC3, CHR 0xA8]"

definition ICON_DOC :: string where
  "ICON_DOC = [CHR 0xEF, CHR 0xA3, CHR 0xBF, CHR 0xC3, CHR 0xBC, CHR 0xC3, CHR 0xAC, CHR 0xC3, CHR 0xB9]"

definition ICON_PACKAGE :: string where
  "ICON_PACKAGE = [CHR 0xEF, CHR 0xA3, CHR 0xBF, CHR 0xC3, CHR 0xBC, CHR 0xC3, CHR 0xAC, CHR 0xC2, CHR 0xB6]"

definition ICON_FILE :: string where
  "ICON_FILE = [CHR 0xEF, CHR 0xA3, CHR 0xBF, CHR 0xC3, CHR 0xBC, CHR 0xC3, CHR 0xAC, CHR 0xC3, CHR 0x91]"

definition ICON_DEPS :: string where
  "ICON_DEPS = [CHR 0xEF, CHR 0xA3, CHR 0xBF, CHR 0xC3, CHR 0xBC, CHR 0xC3, CHR 0xAC, CHR 0xC3, CHR 0xA3]"

text \<open>The result of a tool: a list of text items.\<close>

datatype text_content = TextContent string

section \<open>PathClassifier: \<open>_get_file_icon\<close> and \<open>_format_file_size\<close>\<close>

definition get_file_icon :: "pypath \<Rightarrow> string" where
  "get_file_icon file_path =
     (let suffix = lower (name_suffix (path_name file_path)) in
      if suffix \<in> set PYTHON_EXTENSIONS then ICON_PYTHON
      else if suffix \<in> set CONFIG_EXTENSIONS then ICON_CONFIG
      else if suffix \<in> set DOC_EXTENSIONS then ICON_DOC
      else if path_name file_path \<in> set REQUIREMENTS_FILES then ICON_PACKAGE
      else ICON_FILE)"

text \<open>
  \<open>_format_file_size\<close> divides a float by 1024 per unit and prints it with one decimal.
  Below \<open>2^53\<close> bytes each quotient is exact, so the value in hand is the fraction
  \<open>num / den\<close> with \<open>den\<close> a power of 1024, and \<open>f"{x:.1f}"\<close> rounds its tenths to
  nearest, ties to even.
\<close>

definition fmt_1f :: "nat \<Rightarrow> nat \<Rightarrow> string" where
  "fmt_1f num den =
     (let q = (10 * num) div den;
          r = (10 * num) mod den;
          t = (if den < 2 * r \<or> (2 * r = den \<and> odd q) then q + 1 else q)
      in str_nat (t div 10) @ ''.'' @ str_nat (t mod 10))"

fun format_units :: "string list \<Rightarrow> nat \<Rightarrow> nat \<Rightarrow> string" where
  "format_units [] num den = fmt_1f num den @ ''TB''"
| "format_units (unit # units) num den =
     (if num < 1024 * den then fmt_1f num den @ unit
      else format_units units num (den * 1024))"

definition format_file_size :: "nat \<Rightarrow> string" where
  "format_file_size size_bytes = format_units [''B'', ''KB'', ''MB'', ''GB''] size_bytes 1"

section \<open>SafeFileReader: \<open>_read_file_content\<close>\<close>

definition open_read :: "pypath \<Rightarrow> node \<Rightarrow> pyerr + string" where
  "open_read file_path n =
     (case n of
        File sz None \<Rightarrow> Inl (permission_denied file_path)
      | File sz (Some content) \<Rightarrow> Inr content
      | Dir sz l es \<Rightarrow> Inl (is_a_directory file_path))"

definition read_file_content :: "env \<Rightarrow> pypath \<Rightarrow> pyerr + string" where
  "read_file_content e file_path =
     (case lookup e file_path of
        None \<Rightarrow> Inl (FileNotFoundError (''File not found: '' @ str_path file_path))
      | Some n \<Rightarrow>
          if MAX_FILE_SIZE < st_size n then
            Inl (ValueError (''File too large: '' @ str_path file_path @ '' (''
                   @ format_file_size (st_size n) @ '')''))
          else open_read file_path n)"

section \<open>SourceFileIndex: \<open>_get_python_files\<close>\<close>

text \<open>
  \<open>sorted\<close> on paths compares their \<open>parts\<close>, component by component, each component
  by code point; it is stable.
\<close>

definition get_python_files :: "env \<Rightarrow> pypath option \<Rightarrow> pypath list" where
  "get_python_files e root_directory =
     (case root_directory of
        None \<Rightarrow> []
      | Some root \<Rightarrow>
          (let python_files = concat (map (\<lambda>ext. rglob e root ext) (py_ext_order e));
               filtered_files =
                 filter (\<lambda>file_path. \<not> list_ex (\<lambda>part. part \<in> set EXCLUDE_DIRS) (parts file_path))
                   python_files
           in sort_key parts filtered_files))"

section \<open>Regular expressions\<close>

text \<open>
  The patterns of the program are sequences of two kinds of items: a literal text, and a
  repetition of a character class with its least count, its greatest count if it has
  one, whether it is greedy, and whether it is the group of the pattern. So \<open>\s+\<close> is
  \<open>Rep 1 None True False isspace\<close>, \<open>\s*\<close> has the least count 0, \<open>([^\s,]+)\<close> is a greedy
  group, \<open>(.*?)\<close> under \<open>re.DOTALL\<close> is a lazy group of any character, and a class that
  stands alone is a repetition of exactly one.

  \<open>re_items\<close> is the backtracking match of \<open>re\<close> at the start of a text: a repetition
  tries its counts in order, greedy from the greatest that the text allows down to the
  least, lazy from the least up, and the first count with which the rest of the pattern
  matches wins. The result is the group and the text after the match.
\<close>

datatype rx_item =
    Literal string
  | Rep nat "nat option" bool bool "char \<Rightarrow> bool"

definition candidates :: "nat \<Rightarrow> nat option \<Rightarrow> bool \<Rightarrow> (char \<Rightarrow> bool) \<Rightarrow> string \<Rightarrow> nat list" where
  "candidates lo hi greedy cls s =
     (let avail = length (takeWhile cls s);
          most = (case hi of None \<Rightarrow> avail | Some h \<Rightarrow> min h avail)
      in if greedy then rev [lo ..< Suc most] else [lo ..< Suc most])"

function re_items :: "rx_item list \<Rightarrow> string \<Rightarrow> string \<Rightarrow> (string \<times> string) option"
  and re_try :: "rx_item list \<Rightarrow> bool \<Rightarrow> string \<Rightarrow> string \<Rightarrow> nat list \<Rightarrow> (string \<times> string) option"
where
  "re_items [] s grp = Some (grp, s)"
| "re_items (Literal w # rest) s grp =
     (if prefix w s then re_items rest (drop (length w) s) grp else None)"
| "re_items (Rep lo hi greedy captured cls # rest) s grp =
     re_try rest captured s grp (candidates lo hi greedy cls s)"
| "re_try rest captured s grp [] = None"
| "re_try rest captured s grp (n # ns) =
     (case re_items rest (drop n s) (if captured then take n s else grp) of
        Some r \<Rightarrow> Some r
      | None \<Rightarrow> re_try rest captured s grp ns)"
  by pat_completeness auto
termination
  by (relation "inv_image (less_than <*lex*> less_than)
        (\<lambda>x. case x of
           Inl (items, s, grp) \<Rightarrow> (2 * length items, 0)
         | Inr (rest, captured, s, grp, ns) \<Rightarrow> (2 * length rest + 1, length ns))") auto

declare re_items.simps(3) [simp del]

text \<open>\<open>re.match(pattern, s)\<close> and its \<open>group(1)\<close>; \<open>None\<close> when there is no match.\<close>

definition re_match :: "rx_item list \<Rightarrow> string \<Rightarrow> string option" where
  "re_match pattern s = map_option fst (re_items pattern s [])"

text \<open>
  \<open>re.findall(pattern, s)\<close> for a pattern of one group: the pattern is tried at the start
  of the text; a match gives its group and the search goes on after the match, a failure
  moves one character on.
\<close>

function findall :: "rx_item list \<Rightarrow> string \<Rightarrow> string list" where
  "findall pattern s =
     (case re_items pattern s [] of
        Some (grp, rest) \<Rightarrow>
          grp # (if length rest < length s then findall pattern rest
                 else (case s of [] \<Rightarrow> [] | c # t \<Rightarrow> findall pattern t))
      | None \<Rightarrow> (case s of [] \<Rightarrow> [] | c # t \<Rightarrow> findall pattern t))"
  by pat_completeness auto
termination
  by (relation "measure (\<lambda>(pattern, s). length s)") auto

declare findall.simps [simp del]

section \<open>ManifestParser\<close>

subsection \<open>\<open>_parse_requirements_txt\<close>\<close>

text \<open>
  The loop over the lines appends to \<open>deps\<close>. \<open>line.split()[0]\<close> raises \<open>IndexError\<close>
  on a line with no token.
\<close>

fun requirements_loop :: "string list \<Rightarrow> string list \<Rightarrow> pyerr + string list" where
  "requirements_loop [] deps = Inr deps"
| "requirements_loop (raw # rest) deps =
     (let line = strip raw in
      if line \<noteq> [] \<and> \<not> startswith line ''#'' \<and> \<not> startswith line ''-'' then
        (case split_ws line of
           [] \<Rightarrow> Inl (IndexError ''list index out of range'')
         | tok # toks \<Rightarrow> requirements_loop rest (deps @ [tok]))
      else requirements_loop rest deps)"

definition parse_requirements_txt :: "env \<Rightarrow> pypath \<Rightarrow> pyerr + string list" where
  "parse_requirements_txt e file_path =
     (case read_file_content e file_path of
        Inl err \<Rightarrow> Inl err
      | Inr content \<Rightarrow> requirements_loop (split_on NL content) [])"

subsection \<open>\<open>_parse_pyproject_toml\<close>\<close>

fun pyproject_loop :: "string list \<Rightarrow> bool \<Rightarrow> string list \<Rightarrow> string list" where
  "pyproject_loop [] in_deps_section deps = deps"
| "pyproject_loop (raw # rest) in_deps_section deps =
     (let line = strip raw in
      if startswith line ''[tool.poetry.dependencies]'' \<or> startswith line ''dependencies = [''
      then pyproject_loop rest True deps
      else if startswith line ''['' \<and> in_deps_section then pyproject_loop rest False deps
      else if in_deps_section \<and> CHR ''='' \<in> set line then
        (let dep_name = strip_chars [DQUOTE, SQUOTE] (strip (before_first ''='' line)) in
         if dep_name \<noteq> ''python'' then pyproject_loop rest in_deps_section (deps @ [dep_name])
         else pyproject_loop rest in_deps_section deps)
      else pyproject_loop rest in_deps_section deps)"

definition parse_pyproject_toml :: "env \<Rightarrow> pypath \<Rightarrow> pyerr + string list" where
  "parse_pyproject_toml e file_path =
     (case read_file_content e file_path of
        Inl err \<Rightarrow> Inl err
      | Inr content \<Rightarrow> Inr (pyproject_loop (split_on NL content) False []))"

subsection \<open>\<open>_parse_setup_file\<close>\<close>

text \<open>
  The two patterns \<open>install_requires\s*=\s*\[(.*?)\]\<close> and \<open>requires\s*=\s*\[(.*?)\]\<close>,
  compiled with \<open>re.DOTALL\<close>, and the pattern \<open>["\']([^"\']+)["\']\<close> of a quoted text.
\<close>

definition any_char :: "char \<Rightarrow> bool" where
  "any_char c = True"

definition is_quote :: "char \<Rightarrow> bool" where
  "is_quote c = (c = DQUOTE \<or> c = SQUOTE)"

definition assign_rx :: "string \<Rightarrow> rx_item list" where
  "assign_rx kw =
     [Literal kw, Rep 0 None True False isspace, Literal ''='', Rep 0 None True False isspace,
      Literal ''['', Rep 0 None False True any_char, Literal '']'']"

definition quoted_rx :: "rx_item list" where
  "quoted_rx =
     [Rep 1 (Some 1) True False is_quote, Rep 1 None True True (\<lambda>c. \<not> is_quote c),
      Rep 1 (Some 1) True False is_quote]"

definition setup_patterns :: "rx_item list list" where
  "setup_patterns = [assign_rx ''install_requires'', assign_rx ''requires'']"

definition package_name :: "string \<Rightarrow> string" where
  "package_name pkg = strip (before_first ''<'' (before_first ''=='' (before_first ''>='' pkg)))"

definition setup_deps :: "string \<Rightarrow> string list" where
  "setup_deps content =
     concat (map (\<lambda>pattern.
       concat (map (\<lambda>match. map package_name (findall quoted_rx match))
                 (findall pattern content)))
       setup_patterns)"

definition parse_setup_file :: "env \<Rightarrow> pypath \<Rightarrow> pyerr + string list" where
  "parse_setup_file e file_path =
     (case read_file_content e file_path of
        Inl err \<Rightarrow> Inl err
      | Inr content \<Rightarrow> Inr (setup_deps content))"

subsection \<open>\<open>_analyze_requirement_files\<close>\<close>

text \<open>
  A \<open>dict\<close> keeps its keys in the order of their first insertion; storing under a key
  it holds replaces the value in place.
\<close>

fun dict_set :: "('k \<times> 'v) list \<Rightarrow> 'k \<Rightarrow> 'v \<Rightarrow> ('k \<times> 'v) list" where
  "dict_set [] k v = [(k, v)]"
| "dict_set ((k', v') # d) k v = (if k' = k then (k, v) # d else (k', v') # dict_set d k v)"

definition dict_get :: "('k \<times> 'v) list \<Rightarrow> 'k \<Rightarrow> 'v \<Rightarrow> 'v" where
  "dict_get d k dflt = (case map_of d k of None \<Rightarrow> dflt | Some v \<Rightarrow> v)"

text \<open>
  The dispatch on the manifest's name; \<open>None\<close> is the \<open>continue\<close> of the last branch.
\<close>

definition manifest_deps :: "env \<Rightarrow> pypath \<Rightarrow> string \<Rightarrow> (pyerr + string list) option" where
  "manifest_deps e file_path req_file =
     (if endswith req_file ''.txt'' then Some (parse_requirements_txt e file_path)
      else if req_file = ''pyproject.toml'' then Some (parse_pyproject_toml e file_path)
      else if req_file \<in> set [''setup.py'', ''setup.cfg''] then Some (parse_setup_file e file_path)
      else None)"

fun requirement_files_loop ::
  "env \<Rightarrow> pypath \<Rightarrow> string list \<Rightarrow> (string \<times> string list) list \<Rightarrow> (string \<times> string list) list"
where
  "requirement_files_loop e root [] results = results"
| "requirement_files_loop e root (req_file # rest) results =
     (let file_path = child root req_file in
      if path_exists e file_path then
        (case manifest_deps e file_path req_file of
           None \<Rightarrow> requirement_files_loop e root rest results
         | Some (Inl err) \<Rightarrow> requirement_files_loop e root rest results
         | Some (Inr deps) \<Rightarrow>
             if deps \<noteq> [] then requirement_files_loop e root rest (dict_set results req_file deps)
             else requirement_files_loop e root rest results)
      else requirement_files_loop e root rest results)"

definition analyze_requirement_files :: "env \<Rightarrow> pypath \<Rightarrow> (string \<times> string list) list" where
  "analyze_requirement_files e root = requirement_files_loop e root (req_order e) []"

section \<open>ImportTallyer: \<open>_analyze_imports\<close>\<close>

text \<open>
  The two patterns \<open>^import\s+([^\s,]+)\<close> and \<open>^from\s+([^\s,]+)\s+import\<close>; \<open>re.match\<close>
  anchors them at the start of the line.
\<close>

definition is_module_char :: "char \<Rightarrow> bool" where
  "is_module_char c = (\<not> isspace c \<and> c \<noteq> CHR '','')"

definition import_rx :: "rx_item list" where
  "import_rx =
     [Literal ''import'', Rep 1 None True False isspace, Rep 1 None True True is_module_char]"

definition from_rx :: "rx_item list" where
  "from_rx =
     [Literal ''from'', Rep 1 None True False isspace, Rep 1 None True True is_module_char,
      Rep 1 None True False isspace, Literal ''import'']"

definition import_patterns :: "rx_item list list" where
  "import_patterns = [import_rx, from_rx]"

fun tally_patterns ::
  "rx_item list list \<Rightarrow> string \<Rightarrow> (string \<times> nat) list \<Rightarrow> (string \<times> nat) list"
where
  "tally_patterns [] line import_counts = import_counts"
| "tally_patterns (pattern # rest) line import_counts =
     (case re_match pattern line of
        None \<Rightarrow> tally_patterns rest line import_counts
      | Some tok \<Rightarrow>
          (let top = before_first ''.'' tok in
           tally_patterns rest line (dict_set import_counts top (dict_get import_counts top 0 + 1))))"

fun tally_lines :: "string list \<Rightarrow> (string \<times> nat) list \<Rightarrow> (string \<times> nat) list" where
  "tally_lines [] import_counts = import_counts"
| "tally_lines (raw # rest) import_counts =
     tally_lines rest (tally_patterns import_patterns (strip raw) import_counts)"

text \<open>A file that cannot be read is logged and passed over.\<close>

fun tally_files :: "env \<Rightarrow> pypath list \<Rightarrow> (string \<times> nat) list \<Rightarrow> (string \<times> nat) list" where
  "tally_files e [] import_counts = import_counts"
| "tally_files e (file_path # rest) import_counts =
     (case read_file_content e file_path of
        Inl err \<Rightarrow> tally_files e rest import_counts
      | Inr content \<Rightarrow> tally_files e rest (tally_lines (split_on NL content) import_counts))"

definition analyze_imports :: "env \<Rightarrow> pypath option \<Rightarrow> (string \<times> nat) list" where
  "analyze_imports e root_directory = tally_files e (get_python_files e root_directory) []"

section \<open>CodeSearcher: \<open>_search_code\<close>\<close>

record search_match =
  match_file :: string
  match_line :: nat
  match_content :: string

text \<open>
  The loop over the numbered lines of one file. An exception in it (only
  \<open>relative_to\<close> can raise) ends the file, keeping the matches appended so far.
\<close>

fun search_lines ::
  "pypath \<Rightarrow> pypath \<Rightarrow> string \<Rightarrow> bool \<Rightarrow> nat \<Rightarrow> string list \<Rightarrow> search_match list \<Rightarrow> search_match list"
where
  "search_lines root file_path query case_sensitive line_num [] matches = matches"
| "search_lines root file_path query case_sensitive line_num (line # rest) matches =
     (let search_line = (if case_sensitive then line else lower line);
          search_query = (if case_sensitive then query else lower query)
      in if str_in search_query search_line then
           (case relative_to file_path root of
              Inl err \<Rightarrow> matches
            | Inr rel_path \<Rightarrow>
                search_lines root file_path query case_sensitive (line_num + 1) rest
                  (matches @ [\<lparr>match_file = str_path rel_path, match_line = line_num,
                               match_content = strip line\<rparr>]))
         else search_lines root file_path query case_sensitive (line_num + 1) rest matches)"

fun search_files ::
  "env \<Rightarrow> pypath \<Rightarrow> string \<Rightarrow> bool \<Rightarrow> pypath list \<Rightarrow> search_match list \<Rightarrow> search_match list"
where
  "search_files e root query case_sensitive [] matches = matches"
| "search_files e root query case_sensitive (file_path # rest) matches =
     (case read_file_content e file_path of
        Inl err \<Rightarrow> search_files e root query case_sensitive rest matches
      | Inr content \<Rightarrow>
          search_files e root query case_sensitive rest
            (search_lines root file_path query case_sensitive 1 (split_on NL content) matches))"

text \<open>\<open>if file_pattern:\<close> holds of a pattern that is given and not empty.\<close>

definition pattern_filter :: "env \<Rightarrow> string option \<Rightarrow> pypath list \<Rightarrow> pypath list" where
  "pattern_filter e pattern python_files =
     (case pattern of
        None \<Rightarrow> python_files
      | Some pat \<Rightarrow>
          if pat = [] then python_files
          else filter (\<lambda>f. fnmatch e (path_name f) pat) python_files)"

definition search_matches ::
  "env \<Rightarrow> pypath \<Rightarrow> string \<Rightarrow> bool \<Rightarrow> string option \<Rightarrow> search_match list" where
  "search_matches e root query case_sensitive file_pattern =
     search_files e root query case_sensitive
       (pattern_filter e file_pattern (get_python_files e (Some root))) []"

definition match_text :: "search_match \<Rightarrow> string" where
  "match_text m =
     match_file m @ '':'' @ str_nat (match_line m) @ '': '' @ match_content m @ [NL]"

definition search_result :: "string \<Rightarrow> search_match list \<Rightarrow> string" where
  "search_result query matches =
     ''Found '' @ str_nat (length matches) @ '' matches for '' @ quoted query @ '':'' @ [NL, NL]
     @ concat (map match_text (take 50 matches))
     @ (if 50 < length matches
        then [NL] @ ''... and '' @ str_nat (length matches - 50) @ '' more matches''
        else [])"

definition search_code ::
  "env \<Rightarrow> pypath option \<Rightarrow> string \<Rightarrow> bool \<Rightarrow> string option \<Rightarrow> text_content list" where
  "search_code e root_directory query case_sensitive file_pattern =
     (case root_directory of
        None \<Rightarrow> [TextContent ''Error: No project root set'']
      | Some root \<Rightarrow>
          (let matches = search_matches e root query case_sensitive file_pattern in
           if matches = [] then [TextContent (''No matches found for '' @ quoted query)]
           else [TextContent (search_result query matches)]))"

section \<open>TreeWalker: \<open>_build_directory_tree\<close>\<close>

text \<open>
  The walk at the node a path names: the entries of a directory are the nodes of its
  children, so \<open>item.is_dir()\<close>, \<open>item.name\<close> and \<open>item.stat()\<close> read the entry. An
  item appends nothing when skipped, its line when a file, and its line and then its
  subtree, when that is not empty, when a directory.
\<close>

definition indent_of :: "nat \<Rightarrow> string" where
  "indent_of current_depth = concat (replicate current_depth ''  '')"

definition sorted_items :: "(string \<times> node) list \<Rightarrow> (string \<times> node) list" where
  "sorted_items es = sort_key (\<lambda>(name, item). (is_file_node item, lower name)) es"

definition skipped :: "bool \<Rightarrow> string \<times> node \<Rightarrow> bool" where
  "skipped include_hidden = (\<lambda>(name, item).
     (\<not> include_hidden \<and> startswith name ''.'')
     \<or> (is_dir_node item \<and> name \<in> set EXCLUDE_DIRS))"

definition file_line :: "nat \<Rightarrow> string \<Rightarrow> node \<Rightarrow> string" where
  "file_line current_depth name item =
     indent_of current_depth @ get_file_icon (Path [] [name]) @ '' '' @ name
     @ '' ('' @ format_file_size (st_size item) @ '')''"

definition dir_line :: "nat \<Rightarrow> string \<Rightarrow> string" where
  "dir_line current_depth name = indent_of current_depth @ ICON_FOLDER @ '' '' @ name @ ''/''"

definition denied_line :: "nat \<Rightarrow> string" where
  "denied_line current_depth = indent_of current_depth @ ICON_DENIED @ '' Permission denied''"

function build_tree_node :: "int \<Rightarrow> bool \<Rightarrow> nat \<Rightarrow> node \<Rightarrow> string" where
  "build_tree_node max_depth include_hidden current_depth (File sz t) = []"
| "build_tree_node max_depth include_hidden current_depth (Dir sz l es) =
     (if max_depth \<le> int current_depth then []
      else if \<not> l then denied_line current_depth
      else join [NL] (concat (map (\<lambda>(name, item).
             if skipped include_hidden (name, item) then []
             else if is_dir_node item then
               dir_line current_depth name #
                 (if int current_depth < max_depth - 1 then
                    (let subtree = build_tree_node max_depth include_hidden (current_depth + 1) item
                     in if subtree \<noteq> [] then [subtree] else [])
                  else [])
             else [file_line current_depth name item])
           (sorted_items es))))"
  by pat_completeness auto
termination
proof (relation "measure (\<lambda>(max_depth, include_hidden, current_depth, n). size n)")
  show "wf (measure (\<lambda>(max_depth :: int, include_hidden :: bool, current_depth :: nat, n :: node). size n))"
    by simp
next
  fix max_depth :: int and include_hidden :: bool and current_depth :: nat
    and sz :: nat and l :: bool and es :: "(string \<times> node) list"
    and x :: "string \<times> node" and name :: string and item :: node
  assume "x \<in> set (sorted_items es)" and "(name, item) = x"
  then have "(name, item) \<in> set es"
    by (simp add: sorted_items_def)
  then have "size item < size (Dir sz l es)"
    by (induction es) auto
  then show "((max_depth, include_hidden, current_depth + 1, item),
              (max_depth, include_hidden, current_depth, Dir sz l es))
             \<in> measure (\<lambda>(max_depth, include_hidden, current_depth, n). size n)"
    by simp
qed

text \<open>
  \<open>_build_directory_tree(path, ...)\<close> at a path: listing what is not a directory raises
  an error that the function does not catch.
\<close>

definition build_directory_tree :: "env \<Rightarrow> pypath \<Rightarrow> int \<Rightarrow> bool \<Rightarrow> pyerr + string" where
  "build_directory_tree e path max_depth include_hidden =
     (if max_depth \<le> 0 then Inr []
      else
        (case lookup e path of
           None \<Rightarrow> Inl (no_such_file path)
         | Some (File sz t) \<Rightarrow> Inl (not_a_directory path)
         | Some (Dir sz l es) \<Rightarrow> Inr (build_tree_node max_depth include_hidden 0 (Dir sz l es))))"

section \<open>The engine's operations\<close>

text \<open>
  The state of the engine is \<open>root_directory\<close>: no path, or the root set last. An
  operation reads it; \<open>_set_project_root\<close> alone assigns it, and so returns it with its
  result.
\<close>

definition no_root_set :: "text_content list" where
  "no_root_set = [TextContent ''Error: No project root set'']"

subsection \<open>\<open>_explore_project_structure\<close>\<close>

definition explore_project_structure ::
  "env \<Rightarrow> pypath option \<Rightarrow> int \<Rightarrow> bool \<Rightarrow> text_content list" where
  "explore_project_structure e root_directory max_depth include_hidden =
     (case root_directory of
        None \<Rightarrow> no_root_set
      | Some root \<Rightarrow>
          (case build_directory_tree e root max_depth include_hidden of
             Inl err \<Rightarrow> [TextContent (''Error exploring structure: '' @ err_str err)]
           | Inr structure \<Rightarrow> [TextContent structure]))"

subsection \<open>\<open>_read_file\<close>\<close>

definition read_file :: "env \<Rightarrow> pypath option \<Rightarrow> string \<Rightarrow> text_content list" where
  "read_file e root_directory file_path =
     (case root_directory of
        None \<Rightarrow> no_root_set
      | Some root \<Rightarrow>
          (let path = (if is_absolute (parse_path file_path) then parse_path file_path
                       else joinpath root (parse_path file_path))
           in case read_file_content e path of
                Inl err \<Rightarrow> [TextContent (''Error reading file: '' @ err_str err)]
              | Inr content \<Rightarrow>
                  (case relative_to path root of
                     Inl err \<Rightarrow> [TextContent (''Error reading file: '' @ err_str err)]
                   | Inr rel_path \<Rightarrow>
                       [TextContent (''File: '' @ str_path rel_path @ [NL, NL] @ content)])))"

subsection \<open>\<open>_find_python_files\<close>\<close>

definition stat_size :: "env \<Rightarrow> pypath \<Rightarrow> pyerr + nat" where
  "stat_size e p = (case lookup e p of None \<Rightarrow> Inl (no_such_file p) | Some n \<Rightarrow> Inr (st_size n))"

fun found_files_loop :: "env \<Rightarrow> pypath \<Rightarrow> pypath list \<Rightarrow> string \<Rightarrow> pyerr + string" where
  "found_files_loop e root [] result = Inr result"
| "found_files_loop e root (file_path # rest) result =
     (case relative_to file_path root of
        Inl err \<Rightarrow> Inl err
      | Inr rel_path \<Rightarrow>
          (case stat_size e file_path of
             Inl err \<Rightarrow> Inl err
           | Inr sz \<Rightarrow>
               found_files_loop e root rest
                 (result @ ''  '' @ ICON_PYTHON @ '' '' @ str_path rel_path @ '' (''
                    @ format_file_size sz @ '')'' @ [NL])))"

definition find_python_files ::
  "env \<Rightarrow> pypath option \<Rightarrow> string option \<Rightarrow> bool \<Rightarrow> text_content list" where
  "find_python_files e root_directory pattern include_tests =
     (case root_directory of
        None \<Rightarrow> no_root_set
      | Some root \<Rightarrow>
          (let matching = pattern_filter e pattern (get_python_files e root_directory);
               python_files =
                 (if \<not> include_tests
                  then filter (\<lambda>f. \<not> list_ex (\<lambda>part. startswith part ''test'') (parts f)) matching
                  else matching)
           in if python_files = [] then [TextContent ''No Python files found matching criteria'']
              else
                (case found_files_loop e root python_files
                        (''Found '' @ str_nat (length python_files) @ '' Python files:'' @ [NL, NL]) of
                   Inl err \<Rightarrow> [TextContent (''Error finding Python files: '' @ err_str err)]
                 | Inr result \<Rightarrow> [TextContent result])))"

subsection \<open>\<open>_analyze_dependencies\<close>\<close>

definition manifest_text :: "string \<times> string list \<Rightarrow> string" where
  "manifest_text = (\<lambda>(file_name, deps).
     [NL] @ file_name @ '':'' @ [NL]
     @ concat (map (\<lambda>dep. ''  - '' @ dep @ [NL]) (take 10 deps))
     @ (if 10 < length deps then ''  ... and '' @ str_nat (length deps - 10) @ '' more'' @ [NL]
        else []))"

text \<open>\<open>sorted(items, key=..., reverse=True)\<close> keeps items of equal key in their order.\<close>

definition sorted_imports :: "(string \<times> nat) list \<Rightarrow> (string \<times> nat) list" where
  "sorted_imports imports = rev (sort_key snd (rev imports))"

definition analyze_dependencies :: "env \<Rightarrow> pypath option \<Rightarrow> bool \<Rightarrow> text_content list" where
  "analyze_dependencies e root_directory include_imports =
     (case root_directory of
        None \<Rightarrow> no_root_set
      | Some root \<Rightarrow>
          (let deps_from_files = analyze_requirement_files e root;
               imports = analyze_imports e root_directory
           in [TextContent
                (''Project Dependencies Analysis'' @ [NL] @ replicate 35 CHR ''='' @ [NL, NL]
                 @ (if deps_from_files \<noteq> []
                    then ''Dependencies from requirements files:'' @ [NL]
                         @ concat (map manifest_text deps_from_files)
                    else [])
                 @ (if include_imports \<and> imports \<noteq> []
                    then [NL] @ ''Imported modules (top 20):'' @ [NL]
                         @ concat (map (\<lambda>(m, count).
                             ''  - '' @ m @ '' (used '' @ str_nat count @ '' times)'' @ [NL])
                             (take 20 (sorted_imports imports)))
                    else []))]))"

subsection \<open>\<open>_generate_project_overview\<close> and \<open>_get_project_info\<close>\<close>

definition is_package :: "env \<Rightarrow> pypath \<times> node \<Rightarrow> bool" where
  "is_package e = (\<lambda>(d, n). is_dir_node n \<and> path_exists e (child d ''__init__.py''))"

definition present_requirements :: "env \<Rightarrow> pypath \<Rightarrow> string list" where
  "present_requirements e root =
     filter (\<lambda>file_name. path_exists e (child root file_name)) (req_order e)"

definition generate_project_overview :: "env \<Rightarrow> pypath option \<Rightarrow> pyerr + string" where
  "generate_project_overview e root_directory =
     (case root_directory of
        None \<Rightarrow> Inr ''No project root set''
      | Some root \<Rightarrow>
          (let python_files = get_python_files e root_directory in
           case iterdir e root of
             Inl err \<Rightarrow> Inl err
           | Inr items \<Rightarrow>
               (let packages = map fst (filter (is_package e) items);
                    config_files = present_requirements e root;
                    doc_files = concat (map (\<lambda>ext. glob e root ext) (doc_ext_order e));
                    deps_info = analyze_requirement_files e root
                in Inr
                  (''Python Project Overview: '' @ path_name root @ [NL]
                   @ replicate (25 + length (path_name root)) CHR ''='' @ [NL, NL]
                   @ ICON_FOLDER @ '' Project Root: '' @ str_path root @ [NL]
                   @ ICON_PYTHON @ '' Python Files: '' @ str_nat (length python_files) @ [NL]
                   @ (if packages \<noteq> [] then
                        ICON_PACKAGE @ '' Python Packages: '' @ str_nat (length packages) @ [NL]
                        @ concat (map (\<lambda>pkg. ''    - '' @ path_name pkg @ [NL]) (take 5 packages))
                        @ (if 5 < length packages
                           then ''    ... and '' @ str_nat (length packages - 5) @ '' more'' @ [NL]
                           else [])
                      else [])
                   @ (if config_files \<noteq> [] then
                        ICON_CONFIG @ ''  Configuration Files: '' @ join '', '' config_files @ [NL]
                      else [])
                   @ (if doc_files \<noteq> [] then
                        ICON_DOC @ '' Documentation: '' @ str_nat (length doc_files) @ '' files'' @ [NL]
                      else [])
                   @ (if deps_info \<noteq> [] then
                        ICON_DEPS @ '' Dependencies: ~''
                        @ str_nat (sum_list (map (\<lambda>(file_name, deps). length deps) deps_info))
                        @ '' packages'' @ [NL]
                      else [])
                   @ [NL] @ replicate 50 CHR ''='' @ [NL]
                   @ ''Use other tools to explore specific aspects of the project!''))))"

definition get_project_info :: "env \<Rightarrow> pypath option \<Rightarrow> text_content list" where
  "get_project_info e root_directory =
     (case root_directory of
        None \<Rightarrow> no_root_set
      | Some root \<Rightarrow>
          (case generate_project_overview e root_directory of
             Inl err \<Rightarrow> [TextContent (''Error getting project info: '' @ err_str err)]
           | Inr info \<Rightarrow> [TextContent info]))"

subsection \<open>\<open>_find_python_indicators\<close> and \<open>_set_project_root\<close>\<close>

definition find_python_indicators :: "env \<Rightarrow> pypath option \<Rightarrow> pyerr + string list" where
  "find_python_indicators e root_directory =
     (case root_directory of
        None \<Rightarrow> Inr []
      | Some root \<Rightarrow>
          (let python_files = glob e root ''.py'' in
           case iterdir e root of
             Inl err \<Rightarrow> Inl err
           | Inr items \<Rightarrow>
               (let packages = filter (is_package e) items in
                Inr ((if python_files \<noteq> []
                      then [str_nat (length python_files) @ '' Python files in root''] else [])
                     @ map (\<lambda>file_name. ''Found '' @ file_name) (present_requirements e root)
                     @ (if packages \<noteq> []
                        then [str_nat (length packages) @ '' Python packages found''] else [])))))"

definition set_project_root ::
  "env \<Rightarrow> pypath option \<Rightarrow> string \<Rightarrow> text_content list \<times> pypath option" where
  "set_project_root e root_directory path =
     (let root_path = resolve e (parse_path path) in
      if \<not> path_exists e root_path then
        ([TextContent (''Error: Path does not exist: '' @ path)], root_directory)
      else if \<not> is_dir e root_path then
        ([TextContent (''Error: Path is not a directory: '' @ path)], root_directory)
      else
        (case find_python_indicators e (Some root_path) of
           Inl err \<Rightarrow> ([TextContent (''Error setting project root: '' @ err_str err)], Some root_path)
         | Inr python_indicators \<Rightarrow>
             ([TextContent
                (''Project root set to: '' @ str_path root_path @ [NL, NL]
                 @ (if python_indicators \<noteq> [] then
                      ''Python project indicators found:'' @ [NL]
                      @ concat (map (\<lambda>indicator. ''  - '' @ indicator @ [NL]) python_indicators)
                    else ''Warning: No clear Python project indicators found in this directory.''))],
              Some root_path)))"

section \<open>The specification's words\<close>

text \<open>
  The line-list format as the specification describes it: of the stripped lines, those
  that are not blank and start with neither \<open>#\<close> nor \<open>-\<close>; of each, the first token
  delimited by white space.
\<close>

definition is_requirement_line :: "string \<Rightarrow> bool" where
  "is_requirement_line line = (line \<noteq> [] \<and> \<not> startswith line ''#'' \<and> \<not> startswith line ''-'')"

definition first_token :: "string \<Rightarrow> string" where
  "first_token line = takeWhile (\<lambda>c. \<not> isspace c) line"

definition requirement_tokens :: "string \<Rightarrow> string list" where
  "requirement_tokens content =
     map first_token (filter is_requirement_line (map strip (split_on NL content)))"

text \<open>
  The tally as the specification describes it. A line matches \<open>import <module>\<close> when it
  starts with the word, then white space, and the module token is the run, not empty, of
  the characters after the white space that are neither white space nor a comma; it
  matches \<open>from <module> import\<close> when it starts with \<open>from\<close>, white space, the token, white
  space and the word \<open>import\<close>. Such a line names a module, the text of its token before
  the first dot; a file that is read counts, for a module, its lines that name it.
\<close>

definition match_import :: "string \<Rightarrow> string option" where
  "match_import line =
     (if prefix ''import'' line then
        (case drop (length ''import'') line of
           [] \<Rightarrow> None
         | c # r \<Rightarrow>
             if isspace c then
               (let tok = takeWhile is_module_char (dropWhile isspace r) in
                if tok \<noteq> [] then Some tok else None)
             else None)
      else None)"

definition match_from :: "string \<Rightarrow> string option" where
  "match_from line =
     (if prefix ''from'' line then
        (case drop (length ''from'') line of
           [] \<Rightarrow> None
         | c # r \<Rightarrow>
             if isspace c then
               (let tok = takeWhile is_module_char (dropWhile isspace r) in
                if tok \<noteq> [] then
                  (case dropWhile is_module_char (dropWhile isspace r) of
                     [] \<Rightarrow> None
                   | d # r2 \<Rightarrow>
                       if isspace d \<and> prefix ''import'' (dropWhile isspace r2) then Some tok
                       else None)
                else None)
             else None)
      else None)"

definition imported_module :: "string \<Rightarrow> string option" where
  "imported_module line =
     (case match_import line of
        Some tok \<Rightarrow> Some (before_first ''.'' tok)
      | None \<Rightarrow>
          (case match_from line of
             Some tok \<Rightarrow> Some (before_first ''.'' tok)
           | None \<Rightarrow> None))"

definition file_import_count :: "env \<Rightarrow> string \<Rightarrow> pypath \<Rightarrow> nat" where
  "file_import_count e m file_path =
     (case read_file_content e file_path of
        Inl err \<Rightarrow> 0
      | Inr content \<Rightarrow>
          length (filter (\<lambda>raw. imported_module (strip raw) = Some m) (split_on NL content)))"

text \<open>
  The search as the specification describes it: a line matches when the query is a
  substring of it, both in lower case unless the search is case sensitive; the lines of
  a file are numbered from 1; a file that is read gives, in the order of its lines, a
  record of its path relative to the root, the number and the trimmed text of each line
  that matches.
\<close>

definition line_matches :: "string \<Rightarrow> bool \<Rightarrow> string \<Rightarrow> bool" where
  "line_matches query case_sensitive line =
     (if case_sensitive then str_in query line else str_in (lower query) (lower line))"

definition numbered_from :: "nat \<Rightarrow> 'a list \<Rightarrow> (nat \<times> 'a) list" where
  "numbered_from n xs = zip [n ..< n + length xs] xs"

definition match_record :: "pypath \<Rightarrow> nat \<times> string \<Rightarrow> search_match" where
  "match_record rel_path = (\<lambda>(n, line).
     \<lparr>match_file = str_path rel_path, match_line = n, match_content = strip line\<rparr>)"

definition file_matches :: "env \<Rightarrow> pypath \<Rightarrow> string \<Rightarrow> bool \<Rightarrow> pypath \<Rightarrow> search_match list" where
  "file_matches e root query case_sensitive file_path =
     (case read_file_content e file_path of
        Inl err \<Rightarrow> []
      | Inr content \<Rightarrow>
          (case relative_to file_path root of
             Inl err \<Rightarrow> []
           | Inr rel_path \<Rightarrow>
               map (match_record rel_path)
                 (filter (\<lambda>(n, line). line_matches query case_sensitive line)
                    (numbered_from 1 (split_on NL content)))))"

text \<open>
  The tree as the specification describes it. \<open>render_lines\<close> is the walk of
  \<open>_build_directory_tree\<close> with the lines of a subtree appended one by one instead of joined
  into one text. \<open>entries_within k level n\<close> lists the entries below the directory \<open>n\<close> down
  to \<open>k\<close> levels, each with its level; \<open>entry_line\<close> is the line of an entry: the directory
  line of a directory, the file line of a file. \<open>plain_within h k n\<close> holds when, down to
  \<open>k\<close> levels below \<open>n\<close>, every directory whose entries are reached can be listed and no
  entry is skipped as hidden or excluded.
\<close>

function render_lines :: "int \<Rightarrow> bool \<Rightarrow> nat \<Rightarrow> node \<Rightarrow> string list" where
  "render_lines max_depth include_hidden current_depth (File sz t) = []"
| "render_lines max_depth include_hidden current_depth (Dir sz l es) =
     (if max_depth \<le> int current_depth then []
      else if \<not> l then [denied_line current_depth]
      else concat (map (\<lambda>(name, item).
             if skipped include_hidden (name, item) then []
             else if is_dir_node item then
               dir_line current_depth name #
                 (if int current_depth < max_depth - 1
                  then render_lines max_depth include_hidden (current_depth + 1) item
                  else [])
             else [file_line current_depth name item])
           (sorted_items es)))"
  by pat_completeness auto
termination
proof (relation "measure (\<lambda>(max_depth, include_hidden, current_depth, n). size n)")
  show "wf (measure (\<lambda>(max_depth :: int, include_hidden :: bool, current_depth :: nat, n :: node). size n))"
    by simp
next
  fix max_depth :: int and include_hidden :: bool and current_depth :: nat
    and sz :: nat and l :: bool and es :: "(string \<times> node) list"
    and x :: "string \<times> node" and name :: string and item :: node
  assume "x \<in> set (sorted_items es)" and "(name, item) = x"
  then have "(name, item) \<in> set es"
    by (simp add: sorted_items_def)
  then have "size item < size (Dir sz l es)"
    by (induction es) auto
  then show "((max_depth, include_hidden, current_depth + 1, item),
              (max_depth, include_hidden, current_depth, Dir sz l es))
             \<in> measure (\<lambda>(max_depth, include_hidden, current_depth, n). size n)"
    by simp
qed

fun entries_within :: "nat \<Rightarrow> nat \<Rightarrow> node \<Rightarrow> (nat \<times> string \<times> node) list" where
  "entries_within k level (File sz t) = []"
| "entries_within 0 level (Dir sz l es) = []"
| "entries_within (Suc k) level (Dir sz l es) =
     concat (map (\<lambda>(name, item). (level, name, item) # entries_within k (Suc level) item) es)"

fun plain_within :: "bool \<Rightarrow> nat \<Rightarrow> node \<Rightarrow> bool" where
  "plain_within include_hidden k (File sz t) = True"
| "plain_within include_hidden 0 (Dir sz l es) = True"
| "plain_within include_hidden (Suc k) (Dir sz l es) =
     (l \<and> list_all (\<lambda>(name, item).
             \<not> skipped include_hidden (name, item) \<and> plain_within include_hidden k item) es)"

definition entry_line :: "nat \<times> string \<times> node \<Rightarrow> string" where
  "entry_line = (\<lambda>(level, name, item).
     if is_dir_node item then dir_line level name else file_line level name item)"

text \<open>Two lists of pieces that join to the same text, and are empty together.\<close>

definition same_text :: "string \<Rightarrow> string list \<Rightarrow> string list \<Rightarrow> bool" where
  "same_text sep ps qs = (join sep ps = join sep qs \<and> (ps = [] \<longleftrightarrow> qs = []))"

subsection \<open>What a Pipfile may change\<close>

text \<open>
  The shape of a tree: its names, which of them are directories, and which directories
  may be listed; the sizes and the texts of the files are forgotten.
\<close>

fun shape :: "node \<Rightarrow> node" where
  "shape (File sz t) = File 0 None"
| "shape (Dir sz l es) = Dir 0 l (map (\<lambda>(name, m). (name, shape m)) es)"

text \<open>
  Two environments of one shape, with the same working directory and the same iteration
  orders, in which every recognized manifest other than the Pipfile reads the same. They
  may differ in what the Pipfile holds.
\<close>

definition same_but_Pipfile :: "env \<Rightarrow> env \<Rightarrow> pypath \<Rightarrow> bool" where
  "same_but_Pipfile e e' root =
     (shape (fs e') = shape (fs e) \<and> cwd e' = cwd e
      \<and> py_ext_order e' = py_ext_order e \<and> doc_ext_order e' = doc_ext_order e
      \<and> req_order e' = req_order e
      \<and> list_all (\<lambda>name. name = ''Pipfile''
            \<or> read_file_content e' (child root name) = read_file_content e (child root name))
          (req_order e))"

text \<open>
  What the manifest of one name adds to the count of dependencies: the number of
  dependencies parsed from the file of that name at the root, when the file exists and
  is parsed without an error; and the total the overview prints for a result mapping.
\<close>

definition dependency_count :: "env \<Rightarrow> pypath \<Rightarrow> string \<Rightarrow> nat" where
  "dependency_count e root name =
     (if path_exists e (child root name) then
        (case manifest_deps e (child root name) name of
           Some (Inr deps) \<Rightarrow> length deps
         | _ \<Rightarrow> 0)
      else 0)"

definition total_deps :: "(string \<times> string list) list \<Rightarrow> nat" where
  "total_deps deps_info = sum_list (map (\<lambda>(file_name, deps). length deps) deps_info)"

section \<open>Example environments\<close>

text \<open>
  A process that iterates the three sets in the order of their literals, with an
  \<open>fnmatch\<close> that accepts every name, over a given tree.
\<close>

definition plain_env :: "node \<Rightarrow> env" where
  "plain_env root_node =
     \<lparr>fs = root_node, cwd = [], py_ext_order = PYTHON_EXTENSIONS,
      doc_ext_order = DOC_EXTENSIONS, req_order = REQUIREMENTS_FILES,
      fnmatch = (\<lambda>name pat. True)\<rparr>"

text \<open>A file of exactly 1,048,576 bytes and a file of one byte more.\<close>

definition cap_env :: env where
  "cap_env = plain_env (Dir 4096 True [(''data'', Dir 4096 True
     [(''exact.txt'', File 1048576 (Some ''ok'')),
      (''over.txt'', File 1048577 (Some ''big''))])])"

text \<open>A project whose only manifest is a Pipfile that declares two packages.\<close>

definition pipfile_env :: env where
  "pipfile_env = plain_env (Dir 4096 True [(''proj'', Dir 4096 True
     [(''Pipfile'', File 40 (Some (''[packages]'' @ [NL] @ ''requests = '' @ [DQUOTE] @ ''*'' @ [DQUOTE] @ [NL]
                                     @ ''flask = '' @ [DQUOTE] @ ''*'' @ [DQUOTE])))])])"

text \<open>
  A project whose \<open>requirements.txt\<close> holds a comment, an include, a pinned requirement
  and blank lines.
\<close>

definition requirements_example :: string where
  "requirements_example =
     ''# comment'' @ [NL] @ ''-r other.txt'' @ [NL] @ ''requests>=2.0'' @ [NL] @ [NL]"

definition requirements_env :: env where
  "requirements_env = plain_env (Dir 4096 True [(''proj'', Dir 4096 True
     [(''requirements.txt'', File 40 (Some requirements_example))])])"

text \<open>A root \<open>/proj/pkg\<close> and a file beside it, outside the root.\<close>

definition escape_env :: env where
  "escape_env = plain_env (Dir 4096 True [(''proj'', Dir 4096 True
     [(''pkg'', Dir 4096 True [(''mod.py'', File 9 (Some ''import os''))]),
      (''secret.txt'', File 10 (Some ''top secret''))])])"

text \<open>
  One project tree at two places: below a directory named \<open>build\<close> and below a directory
  named \<open>work\<close>.
\<close>

definition app_tree :: node where
  "app_tree = Dir 4096 True
     [(''main.py'', File 9 (Some ''import os'')),
      (''lib'', Dir 4096 True [(''util.py'', File 10 (Some ''import sys''))])]"

definition build_env :: env where
  "build_env = plain_env (Dir 4096 True [(''srv'', Dir 4096 True
     [(''build'', Dir 4096 True [(''app'', app_tree)]),
      (''work'', Dir 4096 True [(''app'', app_tree)])])])"

text \<open>A project of one source file with the two import lines.\<close>

definition imports_example :: string where
  "imports_example = ''import os'' @ [NL] @ ''from os.path import join''"

definition imports_env :: env where
  "imports_env = plain_env (Dir 4096 True [(''proj'', Dir 4096 True
     [(''main.py'', File 34 (Some imports_example))])])"

text \<open>A project of one source file whose third line is a lower-case todo comment.\<close>

definition todo_example :: string where
  "todo_example = ''import os'' @ [NL] @ [NL] @ ''    # todo: fix'' @ [NL] @ ''x = 1''"

definition todo_env :: env where
  "todo_env = plain_env (Dir 4096 True [(''proj'', Dir 4096 True
     [(''main.py'', File 34 (Some todo_example))])])"

text \<open>
  A project with a nested directory, an empty directory and three files; and a project
  with an empty directory and a directory that may not be listed.
\<close>

definition walk_tree :: node where
  "walk_tree = Dir 4096 True
     [(''src'', Dir 4096 True
        [(''app.py'', File 120 (Some ''import os'')),
         (''core'', Dir 4096 True [(''deep.py'', File 5 (Some ''x = 1''))])]),
      (''README.md'', File 2048 (Some ''notes'')),
      (''empty'', Dir 4096 True [])]"

definition walk_env :: env where
  "walk_env = plain_env (Dir 4096 True [(''proj'', walk_tree)])"

definition odd_tree :: node where
  "odd_tree = Dir 4096 True
     [(''empty'', Dir 4096 True []),
      (''locked'', Dir 4096 False [(''notes.py'', File 10 (Some ''import os''))])]"

definition odd_env :: env where
  "odd_env = plain_env (Dir 4096 True [(''proj'', odd_tree)])"

text \<open>
  A project with a \<open>requirements.txt\<close> of one requirement and a Pipfile of a given text.
\<close>

definition pipfile_example :: string where
  "pipfile_example =
     ''[packages]'' @ [NL] @ ''requests = '' @ [DQUOTE] @ ''*'' @ [DQUOTE] @ [NL]
     @ ''flask = '' @ [DQUOTE] @ ''*'' @ [DQUOTE]"

definition manifests_env :: "string \<Rightarrow> env" where
  "manifests_env pipfile_text = plain_env (Dir 4096 True [(''proj'', Dir 4096 True
     [(''requirements.txt'', File 6 (Some (''flask'' @ [NL]))),
      (''Pipfile'', File (length pipfile_text) (Some pipfile_text))])])"

section \<open>Properties\<close>

subsection \<open>No root set\<close>

text \<open>
  Claim C3. With no root configured, each of the six operations that work below the root
  (explore structure, read file, find source files, analyze dependencies, search code,
  project overview) returns the one text \<open>Error: No project root set\<close>, whatever the
  file system holds and whatever its arguments are: the result does not depend on the
  environment, which is never consulted.
\<close>

theorem no_root_set_error:
  "no_root_set = [TextContent ''Error: No project root set'']
   \<and> explore_project_structure e None max_depth include_hidden = no_root_set
   \<and> read_file e None file_path = no_root_set
   \<and> find_python_files e None pattern include_tests = no_root_set
   \<and> analyze_dependencies e None include_imports = no_root_set
   \<and> search_code e None query case_sensitive file_pattern = no_root_set
   \<and> get_project_info e None = no_root_set"
  by (simp add: no_root_set_def explore_project_structure_def read_file_def
      find_python_files_def analyze_dependencies_def search_code_def get_project_info_def)

subsection \<open>The size cap of the reader\<close>

lemma lookup_cap_env:
  "lookup cap_env (Path ''/'' [''data'', ''exact.txt'']) = Some (File 1048576 (Some ''ok''))"
  "lookup cap_env (Path ''/'' [''data'', ''over.txt'']) = Some (File 1048577 (Some ''big''))"
  "lookup cap_env (Path ''/'' [''data'', ''none'']) = None"
  by (simp_all add: lookup_def cap_env_def plain_env_def is_absolute_def)

lemma format_one_over: "format_file_size 1048577 = ''1.0MB''"
  by (simp add: format_file_size_def fmt_1f_def str_nat.simps digit_char_def)

text \<open>
  Claim C4. \<open>_read_file_content\<close> fails with \<open>FileNotFoundError\<close> on a path that names
  nothing. On an existing entry of at most 1,048,576 bytes it raises no size error and
  returns what opening and reading gives, so the text of a readable file of exactly
  1,048,576 bytes. On an entry of more than 1,048,576 bytes (one byte over is enough) it
  fails with the \<open>ValueError\<close> whose message holds the path and the observed size, as
  \<open>_format_file_size\<close> prints it.
\<close>

theorem read_file_content_size_cap:
  "(lookup e p = None \<longrightarrow>
      read_file_content e p = Inl (FileNotFoundError (''File not found: '' @ str_path p)))
   \<and> (lookup e p = Some n \<and> st_size n \<le> 1048576 \<longrightarrow> read_file_content e p = open_read p n)
   \<and> (lookup e p = Some (File 1048576 (Some content)) \<longrightarrow> read_file_content e p = Inr content)
   \<and> (lookup e p = Some n \<and> 1048576 < st_size n \<longrightarrow>
      read_file_content e p =
        Inl (ValueError (''File too large: '' @ str_path p @ '' (''
               @ format_file_size (st_size n) @ '')'')))"
  by (simp add: read_file_content_def MAX_FILE_SIZE_def open_read_def)

theorem read_file_content_size_cap_witness:
  "read_file_content cap_env (Path ''/'' [''data'', ''exact.txt'']) = Inr ''ok''
   \<and> read_file_content cap_env (Path ''/'' [''data'', ''over.txt''])
       = Inl (ValueError ''File too large: /data/over.txt (1.0MB)'')
   \<and> read_file_content cap_env (Path ''/'' [''data'', ''none''])
       = Inl (FileNotFoundError ''File not found: /data/none'')"
  using
    read_file_content_size_cap [of cap_env "Path ''/'' [''data'', ''exact.txt'']"
      "File 1048576 (Some ''ok'')" "''ok''"]
    read_file_content_size_cap [of cap_env "Path ''/'' [''data'', ''over.txt'']"
      "File 1048577 (Some ''big'')"]
    read_file_content_size_cap [of cap_env "Path ''/'' [''data'', ''none'']"]
  by (simp add: lookup_cap_env format_one_over str_path_def open_read_def)

subsection \<open>Setting the same root again\<close>

text \<open>
  Claim C8. In one environment (the same tree, the same process), setting a root,
  producing the overview, setting the same root again and producing the overview again
  gives the same text: the second assignment leaves \<open>root_directory\<close> as the first left
  it, whether the path was accepted or refused, and the overview is a function of the
  environment and \<open>root_directory\<close>.
\<close>

theorem set_root_again_same_overview:
  "snd (set_project_root e (snd (set_project_root e r0 path)) path)
     = snd (set_project_root e r0 path)
   \<and> generate_project_overview e (snd (set_project_root e (snd (set_project_root e r0 path)) path))
       = generate_project_overview e (snd (set_project_root e r0 path))
   \<and> get_project_info e (snd (set_project_root e (snd (set_project_root e r0 path)) path))
       = get_project_info e (snd (set_project_root e r0 path))"
proof -
  have "snd (set_project_root e (snd (set_project_root e r0 path)) path)
          = snd (set_project_root e r0 path)"
    by (simp add: set_project_root_def Let_def split: sum.splits)
  then show ?thesis by simp
qed

subsection \<open>The Pipfile\<close>

lemma keys_dict_set: "fst ` set (dict_set d k v) = insert k (fst ` set d)"
proof (induction d)
  case Nil
  show ?case by simp
next
  case (Cons p d)
  obtain k' v' where p: "p = (k', v')" by (cases p)
  show ?case
  proof (cases "k' = k")
    case True
    then show ?thesis by (simp add: p)
  next
    case False
    then show ?thesis using Cons.IH by (simp add: p insert_commute)
  qed
qed

lemma manifest_deps_Pipfile: "manifest_deps e file_path ''Pipfile'' = None"
  by (simp add: manifest_deps_def endswith_def suffix_to_prefix)

lemma requirement_files_loop_keys:
  "k \<in> fst ` set (requirement_files_loop e root names results) \<Longrightarrow>
     k \<in> fst ` set results \<or> (k \<in> set names \<and> manifest_deps e (child root k) k \<noteq> None)"
proof (induction names arbitrary: results)
  case Nil
  then show ?case by simp
next
  case (Cons req_file rest)
  show ?case
  proof (cases "path_exists e (child root req_file)")
    case False
    with Cons.prems have "k \<in> fst ` set (requirement_files_loop e root rest results)"
      by (simp add: Let_def)
    from Cons.IH [OF this] show ?thesis by auto
  next
    case True
    show ?thesis
    proof (cases "manifest_deps e (child root req_file) req_file")
      case None
      with True Cons.prems have "k \<in> fst ` set (requirement_files_loop e root rest results)"
        by (simp add: Let_def)
      from Cons.IH [OF this] show ?thesis by auto
    next
      case (Some outcome)
      show ?thesis
      proof (cases outcome)
        case (Inl err)
        with Some True Cons.prems have "k \<in> fst ` set (requirement_files_loop e root rest results)"
          by (simp add: Let_def)
        from Cons.IH [OF this] show ?thesis by auto
      next
        case (Inr deps)
        show ?thesis
        proof (cases "deps = []")
          case True
          with Inr Some \<open>path_exists e (child root req_file)\<close> Cons.prems
          have "k \<in> fst ` set (requirement_files_loop e root rest results)"
            by (simp add: Let_def)
          from Cons.IH [OF this] show ?thesis by auto
        next
          case False
          with Inr Some \<open>path_exists e (child root req_file)\<close> Cons.prems
          have "k \<in> fst ` set (requirement_files_loop e root rest (dict_set results req_file deps))"
            by (simp add: Let_def)
          from Cons.IH [OF this] Some show ?thesis
            by (auto simp: keys_dict_set)
        qed
      qed
    qed
  qed
qed

lemma requirement_files_loop_skips_Pipfile:
  "requirement_files_loop e root names results
     = requirement_files_loop e root (filter (\<lambda>f. f \<noteq> ''Pipfile'') names) results"
proof (induction names arbitrary: results)
  case Nil
  show ?case by simp
next
  case (Cons req_file rest)
  show ?case
  proof (cases "req_file = ''Pipfile''")
    case True
    then show ?thesis
      using Cons.IH [of results] by (simp add: Let_def manifest_deps_Pipfile)
  next
    case False
    then show ?thesis
      using Cons.IH by (simp add: Let_def split: option.splits sum.splits)
  qed
qed

text \<open>
  Walking, listing and globbing read only the shape of the tree.
\<close>

lemma map_of_shape:
  "map_of (map (\<lambda>(name, m). (name, shape m)) es) c = map_option shape (map_of es c)"
  by (induction es) auto

lemma walk_shape:
  "walk (map shape ups) (shape n) cs = map_option shape (walk ups n cs)"
proof (induction ups n cs rule: walk.induct)
  case (1 ups n)
  show ?case by simp
next
  case (2 ups sz t c cs)
  show ?case by simp
next
  case (3 ups sz l es c cs)
  show ?case
  proof (cases "c = ''..''")
    case True
    then show ?thesis using 3(1,2) by (cases ups) simp_all
  next
    case False
    show ?thesis
    proof (cases "map_of es c")
      case None
      then show ?thesis using False by (simp add: map_of_shape)
    next
      case (Some m)
      then show ?thesis using False 3(3) [OF False Some] by (simp add: map_of_shape)
    qed
  qed
qed

lemma lookup_shape:
  assumes "shape (fs e') = shape (fs e)" "cwd e' = cwd e"
  shows "map_option shape (lookup e' p) = map_option shape (lookup e p)"
  using walk_shape [of "[]" "fs e'"] walk_shape [of "[]" "fs e"] assms
  by (simp add: lookup_def)

lemma path_exists_shape:
  assumes "shape (fs e') = shape (fs e)" "cwd e' = cwd e"
  shows "path_exists e' p = path_exists e p"
  using lookup_shape [OF assms, of p]
  by (cases "lookup e' p"; cases "lookup e p") (simp_all add: path_exists_def)

lemma glob_node_shape: "glob_node ext p (shape n) = glob_node ext p n"
  by (cases n) (auto simp add: glob_node_def filter_map comp_def case_prod_unfold)

lemma rglob_node_shape: "rglob_node ext p (shape n) = rglob_node ext p n"
proof (induction ext p n rule: rglob_node.induct)
  case (1 ext p sz t)
  show ?case by simp
next
  case (2 ext p sz l es)
  show ?case
  proof (cases l)
    case False
    then show ?thesis by simp
  next
    case True
    have m: "map (\<lambda>(name, m). rglob_node ext (child p name) m) (map (\<lambda>(name, m). (name, shape m)) es)
          = map (\<lambda>(name, m). rglob_node ext (child p name) m) es"
      using 2 [OF True] by (auto simp add: comp_def case_prod_unfold)
    have "rglob_node ext p (shape (Dir sz l es))
            = glob_node ext p (shape (Dir sz l es))
              @ concat (map (\<lambda>(name, m). rglob_node ext (child p name) m)
                          (map (\<lambda>(name, m). (name, shape m)) es))"
      using True by (simp only: shape.simps rglob_node.simps if_True)
    also have "\<dots> = glob_node ext p (Dir sz l es)
              @ concat (map (\<lambda>(name, m). rglob_node ext (child p name) m) es)"
      by (simp only: m glob_node_shape)
    also have "\<dots> = rglob_node ext p (Dir sz l es)"
      using True by (simp only: rglob_node.simps if_True)
    finally show ?thesis .
  qed
qed

lemma glob_shape:
  assumes "shape (fs e') = shape (fs e)" "cwd e' = cwd e"
  shows "glob e' p ext = glob e p ext"
proof -
  have "glob e' p ext = (case map_option shape (lookup e' p) of None \<Rightarrow> [] | Some n \<Rightarrow> glob_node ext p n)"
    by (simp add: glob_def glob_node_shape split: option.splits)
  also have "\<dots> = (case map_option shape (lookup e p) of None \<Rightarrow> [] | Some n \<Rightarrow> glob_node ext p n)"
    by (simp only: lookup_shape [OF assms])
  also have "\<dots> = glob e p ext"
    by (simp add: glob_def glob_node_shape split: option.splits)
  finally show ?thesis .
qed

lemma rglob_shape:
  assumes "shape (fs e') = shape (fs e)" "cwd e' = cwd e"
  shows "rglob e' p ext = rglob e p ext"
proof -
  have "rglob e' p ext = (case map_option shape (lookup e' p) of None \<Rightarrow> [] | Some n \<Rightarrow> rglob_node ext p n)"
    by (simp add: rglob_def rglob_node_shape split: option.splits)
  also have "\<dots> = (case map_option shape (lookup e p) of None \<Rightarrow> [] | Some n \<Rightarrow> rglob_node ext p n)"
    by (simp only: lookup_shape [OF assms])
  also have "\<dots> = rglob e p ext"
    by (simp add: rglob_def rglob_node_shape split: option.splits)
  finally show ?thesis .
qed

lemma glob_shape_fun:
  assumes "shape (fs e') = shape (fs e)" "cwd e' = cwd e"
  shows "glob e' p = glob e p"
  by (rule ext) (rule glob_shape [OF assms])

lemma rglob_shape_fun:
  assumes "shape (fs e') = shape (fs e)" "cwd e' = cwd e"
  shows "rglob e' p = rglob e p"
  by (rule ext) (rule rglob_shape [OF assms])

lemma get_python_files_shape:
  assumes "shape (fs e') = shape (fs e)" "cwd e' = cwd e" "py_ext_order e' = py_ext_order e"
  shows "get_python_files e' r = get_python_files e r"
  by (cases r) (simp_all add: get_python_files_def rglob_shape_fun [OF assms(1,2)] assms(3))

lemma is_dir_node_shape: "is_dir_node (shape n) = is_dir_node n"
  by (cases n) simp_all

lemma packages_of_shape:
  "map fst (filter (is_package e) (map (\<lambda>(name, n). (child p name, n)) (map (\<lambda>(name, m). (name, shape m)) es)))
     = map fst (filter (is_package e) (map (\<lambda>(name, n). (child p name, n)) es))"
  by (induction es) (auto simp add: is_package_def is_dir_node_shape)

lemma is_package_shape:
  assumes "shape (fs e') = shape (fs e)" "cwd e' = cwd e"
  shows "is_package e' = is_package e"
  by (simp add: is_package_def fun_eq_iff path_exists_shape [OF assms])

lemma iterdir_shape:
  assumes "shape (fs e') = shape (fs e)" "cwd e' = cwd e"
  shows "(\<exists>err. iterdir e' root = Inl err \<and> iterdir e root = Inl err)
         \<or> (\<exists>items' items. iterdir e' root = Inr items' \<and> iterdir e root = Inr items
              \<and> map fst (filter (is_package e') items') = map fst (filter (is_package e) items))"
proof -
  have s: "map_option shape (lookup e' root) = map_option shape (lookup e root)"
    by (rule lookup_shape [OF assms])
  show ?thesis
  proof (cases "lookup e' root")
    case None
    with s have "lookup e root = None" by simp
    with None show ?thesis by (simp add: iterdir_def)
  next
    case (Some n')
    with s obtain n where n: "lookup e root = Some n" "shape n' = shape n" by (cases "lookup e root") auto
    show ?thesis
    proof (cases n')
      case (File sz' t')
      with n(2) obtain sz t where "n = File sz t" by (cases n) auto
      with File Some n(1) show ?thesis by (simp add: iterdir_def)
    next
      case (Dir sz' l' es')
      with n(2) obtain sz l es where d: "n = Dir sz l es" by (cases n) auto
      from n(2) Dir d have l: "l' = l"
        and es: "map (\<lambda>(name, m). (name, shape m)) es' = map (\<lambda>(name, m). (name, shape m)) es"
        by simp_all
      show ?thesis
      proof (cases l)
        case False
        with Some n(1) Dir d l show ?thesis by (simp add: iterdir_def)
      next
        case True
        have "map fst (filter (is_package e') (map (\<lambda>(name, n). (child root name, n)) es'))
                = map fst (filter (is_package e) (map (\<lambda>(name, n). (child root name, n)) es))"
          using packages_of_shape [of e root es'] packages_of_shape [of e root es]
          by (simp only: es is_package_shape [OF assms])
        with True Some n(1) Dir d l show ?thesis by (simp add: iterdir_def)
      qed
    qed
  qed
qed

lemma manifest_deps_read:
  "name = ''Pipfile'' \<or> read_file_content e' p = read_file_content e p \<Longrightarrow>
     manifest_deps e' p name = manifest_deps e p name"
proof (erule disjE)
  assume "name = ''Pipfile''"
  then show ?thesis by (simp add: manifest_deps_Pipfile)
next
  assume "read_file_content e' p = read_file_content e p"
  then show ?thesis
    by (simp add: manifest_deps_def parse_requirements_txt_def parse_pyproject_toml_def
        parse_setup_file_def)
qed

lemma requirement_files_loop_cong:
  assumes "\<And>p. path_exists e' p = path_exists e p"
    and "list_all (\<lambda>name. manifest_deps e' (child root name) name = manifest_deps e (child root name) name) names"
  shows "requirement_files_loop e' root names results = requirement_files_loop e root names results"
  using assms(2)
proof (induction names arbitrary: results)
  case Nil
  show ?case by simp
next
  case (Cons req_file rest)
  then show ?case by (simp add: assms(1) Let_def split: option.splits sum.splits)
qed

lemma same_but_Pipfile_analysis:
  assumes "same_but_Pipfile e e' root"
  shows "analyze_requirement_files e' root = analyze_requirement_files e root"
proof -
  from assms have s: "shape (fs e') = shape (fs e)" "cwd e' = cwd e" "req_order e' = req_order e"
    by (simp_all add: same_but_Pipfile_def)
  have "manifest_deps e' (child root name) name = manifest_deps e (child root name) name"
    if "name \<in> set (req_order e)" for name
  proof -
    from assms that have "name = ''Pipfile''
        \<or> read_file_content e' (child root name) = read_file_content e (child root name)"
      by (simp add: same_but_Pipfile_def list_all_iff)
    then show ?thesis by (rule manifest_deps_read)
  qed
  then have
    "list_all (\<lambda>name. manifest_deps e' (child root name) name = manifest_deps e (child root name) name)
       (req_order e)"
    by (simp add: list_all_iff)
  then show ?thesis
    using requirement_files_loop_cong [of e' e root "req_order e" "[]"] path_exists_shape [OF s(1,2)]
    by (simp add: analyze_requirement_files_def s(3))
qed

lemma same_but_Pipfile_overview:
  assumes "same_but_Pipfile e e' root"
  shows "generate_project_overview e' (Some root) = generate_project_overview e (Some root)"
proof -
  from assms have s: "shape (fs e') = shape (fs e)" "cwd e' = cwd e"
    and o: "py_ext_order e' = py_ext_order e" "doc_ext_order e' = doc_ext_order e"
      "req_order e' = req_order e"
    by (simp_all add: same_but_Pipfile_def)
  note eqs = get_python_files_shape [OF s o(1)] glob_shape_fun [OF s] path_exists_shape [OF s]
    same_but_Pipfile_analysis [OF assms] o
  from iterdir_shape [OF s, of root] show ?thesis
  proof (elim disjE exE conjE)
    fix err assume "iterdir e' root = Inl err" "iterdir e root = Inl err"
    then show ?thesis by (simp add: generate_project_overview_def Let_def)
  next
    fix items' items
    assume "iterdir e' root = Inr items'" "iterdir e root = Inr items"
      "map fst (filter (is_package e') items') = map fst (filter (is_package e) items)"
    then show ?thesis
      by (simp add: generate_project_overview_def Let_def present_requirements_def eqs)
  qed
qed

text \<open>
  The total is the sum of what each name adds, and the name \<open>Pipfile\<close> adds nothing.
\<close>

lemma total_deps_dict_set:
  "k \<notin> fst ` set d \<Longrightarrow> total_deps (dict_set d k v) = total_deps d + length v"
  by (induction d) (auto simp add: total_deps_def)

lemma requirement_files_loop_total:
  "distinct names \<Longrightarrow> set names \<inter> fst ` set results = {} \<Longrightarrow>
     total_deps (requirement_files_loop e root names results)
       = total_deps results + sum_list (map (dependency_count e root) names)"
proof (induction names arbitrary: results)
  case Nil
  show ?case by simp
next
  case (Cons req_file rest)
  from Cons.prems have d: "distinct rest" and r: "set rest \<inter> fst ` set results = {}"
    and k: "req_file \<notin> fst ` set results" and n: "req_file \<notin> set rest" by auto
  have skip: "total_deps (requirement_files_loop e root rest results)
                = total_deps results + sum_list (map (dependency_count e root) rest)"
    by (rule Cons.IH [OF d r])
  show ?case
  proof (cases "path_exists e (child root req_file)")
    case False
    then show ?thesis using skip by (simp add: Let_def dependency_count_def [of e root req_file])
  next
    case True
    show ?thesis
    proof (cases "manifest_deps e (child root req_file) req_file")
      case None
      with True show ?thesis using skip by (simp add: Let_def dependency_count_def [of e root req_file])
    next
      case (Some outcome)
      show ?thesis
      proof (cases outcome)
        case (Inl err)
        with Some True show ?thesis using skip by (simp add: Let_def dependency_count_def [of e root req_file])
      next
        case (Inr deps)
        show ?thesis
        proof (cases "deps = []")
          case True
          with Inr Some \<open>path_exists e (child root req_file)\<close> show ?thesis
            using skip by (simp add: Let_def dependency_count_def [of e root req_file])
        next
          case False
          from r n have "set rest \<inter> fst ` set (dict_set results req_file deps) = {}"
            by (auto simp add: keys_dict_set)
          from Cons.IH [OF d this]
          have "total_deps (requirement_files_loop e root rest (dict_set results req_file deps))
                  = total_deps results + length deps + sum_list (map (dependency_count e root) rest)"
            by (simp add: total_deps_dict_set [OF k])
          with False Inr Some \<open>path_exists e (child root req_file)\<close> show ?thesis
            by (simp add: Let_def dependency_count_def [of e root req_file])
        qed
      qed
    qed
  qed
qed

lemma dependency_count_Pipfile: "dependency_count e root ''Pipfile'' = 0"
  by (simp add: dependency_count_def manifest_deps_Pipfile)

lemma sum_without_Pipfile:
  "sum_list (map (dependency_count e root) (filter (\<lambda>f. f \<noteq> ''Pipfile'') names))
     = sum_list (map (dependency_count e root) names)"
  by (induction names) (simp_all add: dependency_count_Pipfile)

lemma analysis_total:
  "distinct (req_order e) \<Longrightarrow>
     total_deps (analyze_requirement_files e root)
       = sum_list (map (dependency_count e root) (filter (\<lambda>f. f \<noteq> ''Pipfile'') (req_order e)))"
  using requirement_files_loop_total [of "req_order e" "[]" e root]
  by (simp add: analyze_requirement_files_def sum_without_Pipfile total_deps_def)

lemma wf_env_distinct: "wf_env e \<Longrightarrow> distinct (req_order e)"
proof -
  assume "wf_env e"
  then have "mset (req_order e) = mset REQUIREMENTS_FILES" by (simp add: wf_env_def)
  then have "distinct (req_order e) = distinct REQUIREMENTS_FILES" by (rule mset_eq_imp_distinct_iff)
  then show ?thesis by (simp add: REQUIREMENTS_FILES_def)
qed

lemma wf_env_sum:
  fixes f :: "string \<Rightarrow> nat"
  assumes "wf_env e"
  shows "sum_list (map f (filter P (req_order e))) = sum_list (map f (filter P REQUIREMENTS_FILES))"
proof -
  from assms have "mset (req_order e) = mset REQUIREMENTS_FILES" by (simp add: wf_env_def)
  then have "mset (map f (filter P (req_order e))) = mset (map f (filter P REQUIREMENTS_FILES))"
    by simp
  then have "sum_mset (mset (map f (filter P (req_order e))))
               = sum_mset (mset (map f (filter P REQUIREMENTS_FILES)))"
    by (rule arg_cong)
  then show ?thesis by (simp only: sum_mset_sum_list)
qed

lemma analysis_total_five:
  fixes e root
  assumes "wf_env e"
  shows "sum_list (map (\<lambda>(file_name, deps). length deps) (analyze_requirement_files e root))
       = sum_list (map (dependency_count e root)
           [''requirements.txt'', ''requirements-dev.txt'', ''pyproject.toml'', ''setup.py'', ''setup.cfg''])"
proof -
  have "filter (\<lambda>f. f \<noteq> ''Pipfile'') REQUIREMENTS_FILES
          = [''requirements.txt'', ''requirements-dev.txt'', ''pyproject.toml'', ''setup.py'', ''setup.cfg'']"
    by (simp add: REQUIREMENTS_FILES_def)
  then show ?thesis
    using analysis_total [OF wf_env_distinct [OF assms], of root]
      wf_env_sum [OF assms, of "dependency_count e root" "\<lambda>f. f \<noteq> ''Pipfile''"]
    by (simp add: total_deps_def)
qed

text \<open>
  Claim C9. The dispatch of \<open>_analyze_requirement_files\<close> has no branch for the name
  \<open>Pipfile\<close>: it takes the \<open>continue\<close>. So the result never has the key \<open>Pipfile\<close>, and
  it is the result of the same loop run over the recognized names without \<open>Pipfile\<close>.
  The total the overview prints, the sum of the lengths of the lists of the mapping, is
  the sum of what the five other names add. And what the Pipfile holds changes neither
  the mapping nor the overview: two environments that differ only there have the same
  mapping, the same overview text and the same project info.
\<close>

theorem pipfile_never_analyzed:
  "manifest_deps e file_path ''Pipfile'' = None
   \<and> ''Pipfile'' \<notin> fst ` set (analyze_requirement_files e root)
   \<and> analyze_requirement_files e root
       = requirement_files_loop e root (filter (\<lambda>f. f \<noteq> ''Pipfile'') (req_order e)) []
   \<and> (wf_env e \<longrightarrow>
        sum_list (map (\<lambda>(file_name, deps). length deps) (analyze_requirement_files e root))
          = sum_list (map (dependency_count e root)
              [''requirements.txt'', ''requirements-dev.txt'', ''pyproject.toml'', ''setup.py'',
               ''setup.cfg'']))
   \<and> (same_but_Pipfile e e' root \<longrightarrow>
        analyze_requirement_files e' root = analyze_requirement_files e root
        \<and> generate_project_overview e' (Some root) = generate_project_overview e (Some root)
        \<and> get_project_info e' (Some root) = get_project_info e (Some root))"
proof -
  have "''Pipfile'' \<notin> fst ` set (analyze_requirement_files e root)"
  proof
    assume "''Pipfile'' \<in> fst ` set (analyze_requirement_files e root)"
    then have "manifest_deps e (child root ''Pipfile'') ''Pipfile'' \<noteq> None"
      unfolding analyze_requirement_files_def
      using requirement_files_loop_keys [of "''Pipfile''" e root "req_order e" "[]"] by simp
    then show False by (simp add: manifest_deps_Pipfile)
  qed
  moreover have "analyze_requirement_files e root
       = requirement_files_loop e root (filter (\<lambda>f. f \<noteq> ''Pipfile'') (req_order e)) []"
    using requirement_files_loop_skips_Pipfile [of e root "req_order e" "[]"]
    by (simp add: analyze_requirement_files_def)
  moreover have "get_project_info e' (Some root) = get_project_info e (Some root)"
    if "same_but_Pipfile e e' root"
    using same_but_Pipfile_overview [OF that] by (simp add: get_project_info_def)
  ultimately show ?thesis
    using analysis_total_five [of e root] same_but_Pipfile_analysis [of e e' root]
      same_but_Pipfile_overview [of e e' root]
    by (simp add: manifest_deps_Pipfile)
qed

lemma pipfile_env_exists:
  "path_exists pipfile_env (child (Path ''/'' [''proj'']) ''Pipfile'')"
  by (simp add: path_exists_def lookup_def pipfile_env_def plain_env_def is_absolute_def
      child_def joinpath_def parse_path_def path_anchor_def startswith_def split_on.simps)

lemma manifests_env_lookup:
  "lookup (manifests_env t) (Path ''/'' [''proj''])
     = Some (Dir 4096 True
        [(''requirements.txt'', File 6 (Some (''flask'' @ [NL]))),
         (''Pipfile'', File (length t) (Some t))])"
  "lookup (manifests_env t) (Path ''/'' [''proj'', ''requirements.txt''])
     = Some (File 6 (Some (''flask'' @ [NL])))"
  "lookup (manifests_env t) (Path ''/'' [''proj'', ''Pipfile'']) = Some (File (length t) (Some t))"
  "lookup (manifests_env t) (Path ''/'' [''proj'', ''requirements-dev.txt'']) = None"
  "lookup (manifests_env t) (Path ''/'' [''proj'', ''pyproject.toml'']) = None"
  "lookup (manifests_env t) (Path ''/'' [''proj'', ''setup.py'']) = None"
  "lookup (manifests_env t) (Path ''/'' [''proj'', ''setup.cfg'']) = None"
  by (simp_all add: lookup_def manifests_env_def plain_env_def is_absolute_def)

lemma manifests_env_child:
  "child (Path ''/'' [''proj'']) ''requirements.txt'' = Path ''/'' [''proj'', ''requirements.txt'']"
  "child (Path ''/'' [''proj'']) ''requirements-dev.txt'' = Path ''/'' [''proj'', ''requirements-dev.txt'']"
  "child (Path ''/'' [''proj'']) ''pyproject.toml'' = Path ''/'' [''proj'', ''pyproject.toml'']"
  "child (Path ''/'' [''proj'']) ''setup.py'' = Path ''/'' [''proj'', ''setup.py'']"
  "child (Path ''/'' [''proj'']) ''setup.cfg'' = Path ''/'' [''proj'', ''setup.cfg'']"
  "child (Path ''/'' [''proj'']) ''Pipfile'' = Path ''/'' [''proj'', ''Pipfile'']"
  by (simp_all add: child_def joinpath_def parse_path_def path_anchor_def startswith_def
      is_absolute_def split_on.simps)

lemma manifests_env_orders:
  "req_order (manifests_env t) = REQUIREMENTS_FILES"
  "py_ext_order (manifests_env t) = PYTHON_EXTENSIONS"
  "doc_ext_order (manifests_env t) = DOC_EXTENSIONS"
  "cwd (manifests_env t) = []"
  by (simp_all add: manifests_env_def plain_env_def)

lemma manifests_env_wf: "wf_env (manifests_env t)"
  by (simp add: wf_env_def manifests_env_orders)

lemma manifests_env_same:
  "same_but_Pipfile (manifests_env t) (manifests_env t') (Path ''/'' [''proj''])"
  by (simp add: same_but_Pipfile_def manifests_env_orders REQUIREMENTS_FILES_def manifests_env_child
      read_file_content_def path_exists_def manifests_env_lookup)
     (simp add: manifests_env_def plain_env_def)

lemma manifests_env_analysis:
  "requirement_files_loop (manifests_env t) (Path ''/'' [''proj''])
       [''requirements.txt'', ''requirements-dev.txt'', ''pyproject.toml'', ''setup.py'', ''setup.cfg''] []
     = [(''requirements.txt'', [''flask''])]"
  by (simp add: manifests_env_child path_exists_def manifests_env_lookup Let_def manifest_deps_def
      parse_requirements_txt_def read_file_content_def open_read_def MAX_FILE_SIZE_def
      split_on.simps split_ws.simps strip_def strip_with_def isspace_def whitespace_chars_def
      startswith_def endswith_def suffix_to_prefix NL_def)

lemma manifests_env_files:
  "get_python_files (manifests_env t) (Some (Path ''/'' [''proj''])) = []"
  by (simp add: get_python_files_def manifests_env_orders PYTHON_EXTENSIONS_def rglob_def
      manifests_env_lookup glob_node_def endswith_def suffix_to_prefix Let_def)

lemma manifests_env_present:
  "present_requirements (manifests_env t) (Path ''/'' [''proj'']) = [''requirements.txt'', ''Pipfile'']"
  by (simp add: present_requirements_def manifests_env_orders REQUIREMENTS_FILES_def
      manifests_env_child path_exists_def manifests_env_lookup)

lemma manifests_env_docs:
  "concat (map (\<lambda>ext. glob (manifests_env t) (Path ''/'' [''proj'']) ext) (doc_ext_order (manifests_env t)))
     = [Path ''/'' [''proj'', ''requirements.txt'']]"
  by (simp add: manifests_env_orders DOC_EXTENSIONS_def glob_def manifests_env_lookup
      glob_node_def endswith_def suffix_to_prefix manifests_env_child)

lemma manifests_env_packages:
  "iterdir (manifests_env t) (Path ''/'' [''proj''])
     = Inr [(Path ''/'' [''proj'', ''requirements.txt''], File 6 (Some (''flask'' @ [NL]))),
            (Path ''/'' [''proj'', ''Pipfile''], File (length t) (Some t))]"
  by (simp add: iterdir_def manifests_env_lookup manifests_env_child)

lemma manifests_env_analysis_all:
  "analyze_requirement_files (manifests_env t) (Path ''/'' [''proj'']) = [(''requirements.txt'', [''flask''])]"
proof -
  have "analyze_requirement_files (manifests_env t) (Path ''/'' [''proj''])
          = requirement_files_loop (manifests_env t) (Path ''/'' [''proj'']) REQUIREMENTS_FILES []"
    by (simp add: analyze_requirement_files_def manifests_env_orders)
  also have "\<dots> = requirement_files_loop (manifests_env t) (Path ''/'' [''proj''])
                      (filter (\<lambda>f. f \<noteq> ''Pipfile'') REQUIREMENTS_FILES) []"
    by (rule requirement_files_loop_skips_Pipfile)
  also have "filter (\<lambda>f. f \<noteq> ''Pipfile'') REQUIREMENTS_FILES
               = [''requirements.txt'', ''requirements-dev.txt'', ''pyproject.toml'', ''setup.py'', ''setup.cfg'']"
    by (simp add: REQUIREMENTS_FILES_def)
  finally show ?thesis by (simp only: manifests_env_analysis)
qed

lemma manifests_env_overview:
  "generate_project_overview (manifests_env t) (Some (Path ''/'' [''proj'']))
     = Inr (''Python Project Overview: proj'' @ [NL] @ replicate 29 CHR ''='' @ [NL, NL]
            @ ICON_FOLDER @ '' Project Root: /proj'' @ [NL]
            @ ICON_PYTHON @ '' Python Files: 0'' @ [NL]
            @ ICON_CONFIG @ ''  Configuration Files: requirements.txt, Pipfile'' @ [NL]
            @ ICON_DOC @ '' Documentation: 1 files'' @ [NL]
            @ ICON_DEPS @ '' Dependencies: ~1 packages'' @ [NL]
            @ [NL] @ replicate 50 CHR ''='' @ [NL]
            @ ''Use other tools to explore specific aspects of the project!'')"
  unfolding generate_project_overview_def
  by (simp add: manifests_env_files manifests_env_present manifests_env_docs manifests_env_packages
      manifests_env_analysis_all Let_def is_package_def path_name_def str_path_def str_nat.simps
      digit_char_def)

theorem pipfile_never_analyzed_witness:
  "path_exists pipfile_env (child (Path ''/'' [''proj'']) ''Pipfile'')
   \<and> analyze_requirement_files pipfile_env (Path ''/'' [''proj'']) = []
   \<and> wf_env (manifests_env pipfile_example)
   \<and> same_but_Pipfile (manifests_env pipfile_example) (manifests_env []) (Path ''/'' [''proj''])
   \<and> present_requirements (manifests_env pipfile_example) (Path ''/'' [''proj''])
       = [''requirements.txt'', ''Pipfile'']
   \<and> analyze_requirement_files (manifests_env pipfile_example) (Path ''/'' [''proj''])
       = [(''requirements.txt'', [''flask''])]
   \<and> sum_list (map (dependency_count (manifests_env pipfile_example) (Path ''/'' [''proj'']))
         [''requirements.txt'', ''requirements-dev.txt'', ''pyproject.toml'', ''setup.py'',
          ''setup.cfg'']) = 1
   \<and> generate_project_overview (manifests_env pipfile_example) (Some (Path ''/'' [''proj'']))
       = Inr (''Python Project Overview: proj'' @ [NL] @ replicate 29 CHR ''='' @ [NL, NL]
              @ ICON_FOLDER @ '' Project Root: /proj'' @ [NL]
              @ ICON_PYTHON @ '' Python Files: 0'' @ [NL]
              @ ICON_CONFIG @ ''  Configuration Files: requirements.txt, Pipfile'' @ [NL]
              @ ICON_DOC @ '' Documentation: 1 files'' @ [NL]
              @ ICON_DEPS @ '' Dependencies: ~1 packages'' @ [NL]
              @ [NL] @ replicate 50 CHR ''='' @ [NL]
              @ ''Use other tools to explore specific aspects of the project!'')
   \<and> generate_project_overview (manifests_env []) (Some (Path ''/'' [''proj'']))
       = generate_project_overview (manifests_env pipfile_example) (Some (Path ''/'' [''proj'']))"
proof -
  have "req_order pipfile_env = REQUIREMENTS_FILES"
    by (simp add: pipfile_env_def plain_env_def)
  moreover have "\<not> path_exists pipfile_env (child (Path ''/'' [''proj'']) name)"
    if "name \<in> set [''requirements.txt'', ''requirements-dev.txt'', ''pyproject.toml'', ''setup.py'', ''setup.cfg'']" for name
    using that
    by (auto simp add: path_exists_def lookup_def pipfile_env_def plain_env_def is_absolute_def
      child_def joinpath_def parse_path_def path_anchor_def startswith_def split_on.simps)
  ultimately have only: "path_exists pipfile_env (child (Path ''/'' [''proj'']) ''Pipfile'')
      \<and> analyze_requirement_files pipfile_env (Path ''/'' [''proj'']) = []"
    using pipfile_never_analyzed [of pipfile_env "Path ''/'' [''proj'', ''Pipfile'']" "Path ''/'' [''proj'']"]
    by (simp add: pipfile_env_exists REQUIREMENTS_FILES_def Let_def)
  note both = pipfile_never_analyzed [of "manifests_env pipfile_example"
      "Path ''/'' [''proj'', ''Pipfile'']" "Path ''/'' [''proj'']" "manifests_env []"]
  have wf: "wf_env (manifests_env pipfile_example)"
    by (rule manifests_env_wf)
  have same: "same_but_Pipfile (manifests_env pipfile_example) (manifests_env []) (Path ''/'' [''proj''])"
    by (rule manifests_env_same)
  have five: "filter (\<lambda>f. f \<noteq> ''Pipfile'') (req_order (manifests_env pipfile_example))
      = [''requirements.txt'', ''requirements-dev.txt'', ''pyproject.toml'', ''setup.py'', ''setup.cfg'']"
    by (simp add: manifests_env_orders REQUIREMENTS_FILES_def)
  from both have "analyze_requirement_files (manifests_env pipfile_example) (Path ''/'' [''proj''])
      = requirement_files_loop (manifests_env pipfile_example) (Path ''/'' [''proj''])
          (filter (\<lambda>f. f \<noteq> ''Pipfile'') (req_order (manifests_env pipfile_example))) []"
    by blast
  then have analysis: "analyze_requirement_files (manifests_env pipfile_example) (Path ''/'' [''proj''])
       = [(''requirements.txt'', [''flask''])]"
    by (simp only: five manifests_env_analysis)
  have total: "sum_list (map (dependency_count (manifests_env pipfile_example) (Path ''/'' [''proj'']))
         [''requirements.txt'', ''requirements-dev.txt'', ''pyproject.toml'', ''setup.py'',
          ''setup.cfg'']) = 1"
  proof -
    from both wf have
      "sum_list (map (\<lambda>(file_name, deps). length deps)
           (analyze_requirement_files (manifests_env pipfile_example) (Path ''/'' [''proj''])))
         = sum_list (map (dependency_count (manifests_env pipfile_example) (Path ''/'' [''proj'']))
             [''requirements.txt'', ''requirements-dev.txt'', ''pyproject.toml'', ''setup.py'',
              ''setup.cfg''])"
      by blast
    then show ?thesis by (simp add: analysis)
  qed
  from both same have
    "generate_project_overview (manifests_env []) (Some (Path ''/'' [''proj'']))
       = generate_project_overview (manifests_env pipfile_example) (Some (Path ''/'' [''proj'']))"
    by blast
  with only wf same analysis total show ?thesis
    by (simp only: manifests_env_overview manifests_env_present simp_thms)
qed

subsection \<open>The line-list manifest\<close>

lemma strip_with_prefix: "\<exists>rest. dropWhile P s = strip_with P s @ rest"
proof -
  have "rev (dropWhile P s) = takeWhile P (rev (dropWhile P s)) @ dropWhile P (rev (dropWhile P s))"
    by simp
  then have "dropWhile P s = rev (dropWhile P (rev (dropWhile P s))) @ rev (takeWhile P (rev (dropWhile P s)))"
    by (metis rev_append rev_rev_ident)
  then show ?thesis unfolding strip_with_def by blast
qed

lemma strip_with_head: "strip_with P s = x # r \<Longrightarrow> \<not> P x"
proof -
  assume a: "strip_with P s = x # r"
  obtain rest where "dropWhile P s = strip_with P s @ rest"
    using strip_with_prefix by blast
  with a have "dropWhile P s = x # (r @ rest)" by simp
  then show "\<not> P x" using hd_dropWhile [of P s] by simp
qed

lemma split_ws_first:
  "\<not> isspace x \<Longrightarrow>
     split_ws (x # r) = first_token (x # r) # split_ws (dropWhile (\<lambda>c. \<not> isspace c) (x # r))"
  by (subst split_ws.simps) (simp add: first_token_def)

lemma requirements_loop_Cons:
  "requirements_loop (raw # rest) deps =
     (if is_requirement_line (strip raw) then
        (case split_ws (strip raw) of
           [] \<Rightarrow> Inl (IndexError ''list index out of range'')
         | tok # toks \<Rightarrow> requirements_loop rest (deps @ [tok]))
      else requirements_loop rest deps)"
  by (simp add: Let_def is_requirement_line_def)

lemma requirements_loop_tokens:
  "requirements_loop raws deps
     = Inr (deps @ map first_token (filter is_requirement_line (map strip raws)))"
proof (induction raws arbitrary: deps)
  case Nil
  show ?case by simp
next
  case (Cons raw rest)
  show ?case
  proof (cases "is_requirement_line (strip raw)")
    case False
    then show ?thesis
      using Cons.IH [of deps] by (simp only: requirements_loop_Cons if_False list.map filter.simps)
  next
    case True
    then obtain x r where xr: "strip raw = x # r"
      by (cases "strip raw") (auto simp: is_requirement_line_def)
    then have "\<not> isspace x"
      using strip_with_head [of isspace raw x r] by (simp add: strip_def)
    then have "split_ws (strip raw)
        = first_token (strip raw) # split_ws (dropWhile (\<lambda>c. \<not> isspace c) (strip raw))"
      unfolding xr by (rule split_ws_first)
    then have "requirements_loop (raw # rest) deps
        = requirements_loop rest (deps @ [first_token (strip raw)])"
      using True by (simp only: requirements_loop_Cons if_True list.case)
    then show ?thesis
      using True Cons.IH [of "deps @ [first_token (strip raw)]"] by simp
  qed
qed

text \<open>
  When the manifest can be read, \<open>_parse_requirements_txt\<close> returns, in order, the first
  token delimited by white space of every stripped line that is not blank and starts
  with neither \<open>#\<close> nor \<open>-\<close>. No line raises \<open>IndexError\<close>.
\<close>

theorem requirements_txt_first_tokens:
  "read_file_content e file_path = Inr content \<Longrightarrow>
     parse_requirements_txt e file_path = Inr (requirement_tokens content)"
  by (simp add: parse_requirements_txt_def requirements_loop_tokens requirement_tokens_def)

lemma requirements_env_content:
  "read_file_content requirements_env (Path ''/'' [''proj'', ''requirements.txt''])
     = Inr requirements_example"
  by (simp add: read_file_content_def lookup_def requirements_env_def plain_env_def
      is_absolute_def MAX_FILE_SIZE_def open_read_def)

lemma split_requirements_example:
  "split_on NL requirements_example
     = [''# comment'', ''-r other.txt'', ''requests>=2.0'', [], []]"
  by (simp add: requirements_example_def NL_def split_on.simps)

lemma requirements_example_tokens:
  "requirement_tokens requirements_example = [''requests>=2.0'']"
  unfolding requirement_tokens_def split_requirements_example
  by (simp add: strip_def strip_with_def isspace_def
      whitespace_chars_def is_requirement_line_def startswith_def first_token_def)

theorem requirements_txt_first_tokens_witness:
  "read_file_content requirements_env (Path ''/'' [''proj'', ''requirements.txt''])
     = Inr requirements_example
   \<and> parse_requirements_txt requirements_env (Path ''/'' [''proj'', ''requirements.txt''])
     = Inr [''requests>=2.0'']"
  using requirements_txt_first_tokens [OF requirements_env_content]
  by (simp only: requirements_env_content requirements_example_tokens simp_thms)

lemma spaced_requirement:
  "requirements_loop ['' requests >= 2.0''] [] = Inr [''requests'']"
  by (simp add: strip_def strip_with_def isspace_def whitespace_chars_def startswith_def
      split_ws.simps)

lemma sibling_package_name: "package_name ''requests>=2.0'' = ''requests''"
  by (simp add: package_name_def strip_def strip_with_def isspace_def
      whitespace_chars_def)

text \<open>
  Claim C1 at a failing input. The manifest of the lines \<open># comment\<close>, \<open>-r other.txt\<close>,
  \<open>requests>=2.0\<close> and two blank ones yields \<open>["requests>=2.0"]\<close>, not \<open>["requests"]\<close>:
  \<open>line.split()[0]\<close> cuts the line at white space only. The same requirement written
  with white space before its constraint yields \<open>requests\<close>, and \<open>_parse_setup_file\<close>
  cuts \<open>requests>=2.0\<close> to \<open>requests\<close>.
\<close>

theorem requirements_txt_keeps_version_constraint:
  "split_on NL requirements_example
     = [''# comment'', ''-r other.txt'', ''requests>=2.0'', [], []]
   \<and> parse_requirements_txt requirements_env (Path ''/'' [''proj'', ''requirements.txt''])
     = Inr [''requests>=2.0'']
   \<and> parse_requirements_txt requirements_env (Path ''/'' [''proj'', ''requirements.txt''])
     \<noteq> Inr [''requests'']
   \<and> requirements_loop ['' requests >= 2.0''] [] = Inr [''requests'']
   \<and> package_name ''requests>=2.0'' = ''requests''"
proof -
  have "parse_requirements_txt requirements_env (Path ''/'' [''proj'', ''requirements.txt''])
     = Inr (requirement_tokens requirements_example)"
    by (simp only: parse_requirements_txt_def requirements_env_content requirements_loop_tokens
        requirement_tokens_def sum.case append_Nil)
  then have "parse_requirements_txt requirements_env (Path ''/'' [''proj'', ''requirements.txt''])
     = Inr [''requests>=2.0'']"
    by (simp only: requirements_example_tokens)
  then show ?thesis
    using spaced_requirement sibling_package_name
    by (simp only: split_requirements_example) simp
qed

subsection \<open>Reading a file outside the root\<close>

lemma parts_prefix_absolute:
  "is_absolute root \<Longrightarrow> is_absolute p \<Longrightarrow>
     prefix (parts root) (parts p) = (anchor p = anchor root \<and> prefix (rel_parts root) (rel_parts p))"
  by (auto simp add: parts_def is_absolute_def)

text \<open>
  Claim C10, as amended. For an absolute root and an absolute file path whose components,
  as written, do not begin with those of the root, \<open>_read_file\<close> returns an error text and
  never a text that starts with \<open>File:\<close>: the error of the reader when the file cannot be
  read, and otherwise, after the content is read, the \<open>ValueError\<close> of \<open>relative_to\<close>.
\<close>

theorem read_file_outside_root:
  assumes "is_absolute root" and "is_absolute (parse_path file_path)"
    and "\<not> prefix (parts root) (parts (parse_path file_path))"
  shows "read_file e (Some root) file_path =
           [TextContent (''Error reading file: '' @
              (case read_file_content e (parse_path file_path) of
                 Inl err \<Rightarrow> err_str err
               | Inr content \<Rightarrow>
                   quoted (str_path (parse_path file_path)) @ '' is not in the subpath of ''
                     @ quoted (str_path root)))]
         \<and> read_file e (Some root) file_path \<noteq> [TextContent (''File: '' @ shown)]"
proof -
  have "\<not> (anchor (parse_path file_path) = anchor root
            \<and> prefix (rel_parts root) (rel_parts (parse_path file_path)))"
    using assms parts_prefix_absolute [of root "parse_path file_path"] by simp
  then show ?thesis
    using assms(2)
    by (auto simp add: read_file_def relative_to_def Let_def split: sum.splits)
qed

lemma parse_outside: "parse_path ''/proj/secret.txt'' = Path ''/'' [''proj'', ''secret.txt'']"
  by (simp add: parse_path_def path_anchor_def startswith_def split_on.simps)

lemma parse_dotdot:
  "parse_path ''/proj/pkg/../secret.txt'' = Path ''/'' [''proj'', ''pkg'', ''..'', ''secret.txt'']"
  by (simp add: parse_path_def path_anchor_def startswith_def split_on.simps)

lemma escape_env_secret:
  "read_file_content escape_env (Path ''/'' [''proj'', ''secret.txt'']) = Inr ''top secret''"
  "read_file_content escape_env (Path ''/'' [''proj'', ''pkg'', ''..'', ''secret.txt'']) = Inr ''top secret''"
  by (simp_all add: read_file_content_def lookup_def escape_env_def plain_env_def
      is_absolute_def MAX_FILE_SIZE_def open_read_def)

theorem read_file_outside_root_witness:
  "is_absolute (Path ''/'' [''proj'', ''pkg''])
   \<and> is_absolute (parse_path ''/proj/secret.txt'')
   \<and> \<not> prefix (parts (Path ''/'' [''proj'', ''pkg''])) (parts (parse_path ''/proj/secret.txt''))
   \<and> read_file_content escape_env (parse_path ''/proj/secret.txt'') = Inr ''top secret''
   \<and> read_file escape_env (Some (Path ''/'' [''proj'', ''pkg''])) ''/proj/secret.txt''
       = [TextContent (''Error reading file: '' @ quoted ''/proj/secret.txt''
            @ '' is not in the subpath of '' @ quoted ''/proj/pkg'')]"
proof -
  have a: "is_absolute (Path ''/'' [''proj'', ''pkg''])"
    by (simp add: is_absolute_def)
  have b: "is_absolute (parse_path ''/proj/secret.txt'')"
    by (simp add: parse_outside is_absolute_def)
  have c: "\<not> prefix (parts (Path ''/'' [''proj'', ''pkg''])) (parts (parse_path ''/proj/secret.txt''))"
    by (simp add: parse_outside parts_def)
  show ?thesis
    using read_file_outside_root [OF a b c, of escape_env] a b c
    by (simp add: parse_outside escape_env_secret str_path_def)
qed

text \<open>
  Claim C10 as stated fails for a path that begins with the components of the root and
  leaves it through \<open>..\<close>: \<open>relative_to\<close> compares the written components, so with the
  root \<open>/proj/pkg\<close> the path \<open>/proj/pkg/../secret.txt\<close>, which names the file
  \<open>/proj/secret.txt\<close> outside the root, is read and its contents are returned.
\<close>

theorem read_file_dotdot_leaves_root:
  "is_absolute (parse_path ''/proj/pkg/../secret.txt'')
   \<and> resolve escape_env (parse_path ''/proj/pkg/../secret.txt'') = Path ''/'' [''proj'', ''secret.txt'']
   \<and> \<not> prefix (parts (Path ''/'' [''proj'', ''pkg'']))
                (parts (resolve escape_env (parse_path ''/proj/pkg/../secret.txt'')))
   \<and> read_file escape_env (Some (Path ''/'' [''proj'', ''pkg''])) ''/proj/pkg/../secret.txt''
       = [TextContent (''File: ../secret.txt'' @ [NL, NL] @ ''top secret'')]"
  by (simp add: parse_dotdot is_absolute_def resolve_def parts_def read_file_def
      escape_env_secret relative_to_def str_path_def Let_def)

subsection \<open>The source file index\<close>

lemmas path_eval =
  child_def joinpath_def parse_path_def path_anchor_def startswith_def endswith_def
  is_absolute_def split_on.simps parts_def suffix_to_prefix

lemma build_env_root:
  "snd (set_project_root build_env None ''/srv/build/app'') = Some (Path ''/'' [''srv'', ''build'', ''app''])"
  by (simp add: set_project_root_def Let_def resolve_def path_exists_def is_dir_def lookup_def
      build_env_def plain_env_def app_tree_def path_eval split: sum.splits)

lemma build_env_rglob:
  "rglob build_env (Path ''/'' [''srv'', ''build'', ''app'']) ''.py''
     = [Path ''/'' [''srv'', ''build'', ''app'', ''main.py''],
        Path ''/'' [''srv'', ''build'', ''app'', ''lib'', ''util.py'']]"
  "rglob build_env (Path ''/'' [''srv'', ''build'', ''app'']) ''.pyx'' = []"
  "rglob build_env (Path ''/'' [''srv'', ''build'', ''app'']) ''.pyi'' = []"
  by (simp_all add: rglob_def glob_node_def lookup_def build_env_def plain_env_def app_tree_def path_eval)

lemma work_env_rglob:
  "rglob build_env (Path ''/'' [''srv'', ''work'', ''app'']) ''.py''
     = [Path ''/'' [''srv'', ''work'', ''app'', ''main.py''],
        Path ''/'' [''srv'', ''work'', ''app'', ''lib'', ''util.py'']]"
  "rglob build_env (Path ''/'' [''srv'', ''work'', ''app'']) ''.pyx'' = []"
  "rglob build_env (Path ''/'' [''srv'', ''work'', ''app'']) ''.pyi'' = []"
  by (simp_all add: rglob_def glob_node_def lookup_def build_env_def plain_env_def app_tree_def path_eval)

lemma get_python_files_sorted: "sorted (map parts (get_python_files e root_directory))"
  by (cases root_directory) (simp_all add: get_python_files_def Let_def)

text \<open>
  Claim C2 at a failing input. \<open>_get_python_files\<close> tests \<open>file_path.parts\<close>, the
  components of the absolute path, against the exclusion set, so the components of the
  root count too. With the root \<open>/srv/build/app\<close>, accepted by \<open>_set_project_root\<close>,
  the two source files \<open>main.py\<close> and \<open>lib/util.py\<close> are found by \<open>rglob\<close> and none is
  returned, though no component of their paths relative to the root is excluded; the same
  tree at \<open>/srv/work/app\<close> yields both, sorted.
\<close>

theorem root_under_excluded_name_hides_all_files:
  "snd (set_project_root build_env None ''/srv/build/app'') = Some (Path ''/'' [''srv'', ''build'', ''app''])
   \<and> rglob build_env (Path ''/'' [''srv'', ''build'', ''app'']) ''.py''
       = [Path ''/'' [''srv'', ''build'', ''app'', ''main.py''],
          Path ''/'' [''srv'', ''build'', ''app'', ''lib'', ''util.py'']]
   \<and> get_python_files build_env (Some (Path ''/'' [''srv'', ''build'', ''app''])) = []
   \<and> get_python_files build_env (Some (Path ''/'' [''srv'', ''work'', ''app'']))
       = [Path ''/'' [''srv'', ''work'', ''app'', ''lib'', ''util.py''],
          Path ''/'' [''srv'', ''work'', ''app'', ''main.py'']]"
proof -
  have order: "py_ext_order build_env = [''.py'', ''.pyx'', ''.pyi'']"
    by (simp add: build_env_def plain_env_def PYTHON_EXTENSIONS_def)
  have a: "get_python_files build_env (Some (Path ''/'' [''srv'', ''build'', ''app''])) = []"
    by (simp add: get_python_files_def order build_env_rglob Let_def parts_def EXCLUDE_DIRS_def)
  have b: "get_python_files build_env (Some (Path ''/'' [''srv'', ''work'', ''app'']))
       = [Path ''/'' [''srv'', ''work'', ''app'', ''lib'', ''util.py''],
          Path ''/'' [''srv'', ''work'', ''app'', ''main.py'']]"
    by (simp add: get_python_files_def order work_env_rglob Let_def parts_def EXCLUDE_DIRS_def)
  show ?thesis
    by (simp only: build_env_root build_env_rglob a b simp_thms)
qed

subsection \<open>The import tally\<close>

lemma dict_get_dict_set:
  "dict_get (dict_set d k v) k' dflt = (if k' = k then v else dict_get d k' dflt)"
proof (induction d)
  case Nil
  show ?case by (simp add: dict_get_def)
next
  case (Cons p d)
  obtain a b where p: "p = (a, b)" by (cases p)
  show ?case
    using Cons.IH by (auto simp add: p dict_get_def)
qed

text \<open>
  The two import patterns, matched by backtracking, are the closed forms \<open>match_import\<close>
  and \<open>match_from\<close>: a shorter run of white space or of the token never lets the rest of
  the pattern match, so only the longest run counts.
\<close>

lemma re_try_all_fail:
  "(\<And>n. n \<in> set ns \<Longrightarrow> re_items rest (drop n s) (if captured then take n s else grp) = None)
     \<Longrightarrow> re_try rest captured s grp ns = None"
  by (induction ns) simp_all

lemma re_items_greedy:
  "re_items (Rep lo None True captured cls # rest) s grp =
     (if lo \<le> length (takeWhile cls s) then
        (case re_items rest (dropWhile cls s) (if captured then takeWhile cls s else grp) of
           Some r \<Rightarrow> Some r
         | None \<Rightarrow> re_try rest captured s grp (rev [lo ..< length (takeWhile cls s)]))
      else None)"
proof (cases "lo \<le> length (takeWhile cls s)")
  case False
  then show ?thesis by (simp add: re_items.simps(3) candidates_def Let_def)
next
  case True
  define k where "k = length (takeWhile cls s)"
  have c: "candidates lo None True cls s = k # rev [lo ..< k]"
    using True by (simp add: candidates_def Let_def k_def)
  have d: "drop k s = dropWhile cls s"
    by (simp add: dropWhile_eq_drop k_def)
  have t: "take k s = takeWhile cls s"
    by (simp add: k_def takeWhile_eq_take [symmetric])
  have "re_items (Rep lo None True captured cls # rest) s grp =
        (case re_items rest (dropWhile cls s) (if captured then takeWhile cls s else grp) of
           Some r \<Rightarrow> Some r
         | None \<Rightarrow> re_try rest captured s grp (rev [lo ..< k]))"
    by (simp only: re_items.simps(3) c re_try.simps d t)
  from this [unfolded k_def] True show ?thesis
    by simp
qed

lemma drop_in_run:
  assumes "n < length (takeWhile cls s)"
  shows "\<exists>x xs. drop n s = x # xs \<and> cls x"
proof -
  have n: "n < length s"
    using assms length_takeWhile_le [of cls s] by simp
  then have "drop n s = s ! n # drop (Suc n) s"
    by (simp add: Cons_nth_drop_Suc)
  moreover have "cls (s ! n)"
    using assms by (metis nth_mem set_takeWhileD takeWhile_nth)
  ultimately show ?thesis by blast
qed

lemma re_items_greedy_only:
  assumes "\<And>x xs. cls x \<Longrightarrow> re_items rest (x # xs) grp = None" and "\<not> captured"
  shows "re_items (Rep lo None True captured cls # rest) s grp =
     (if lo \<le> length (takeWhile cls s) then re_items rest (dropWhile cls s) grp else None)"
proof -
  have "re_try rest captured s grp (rev [lo ..< length (takeWhile cls s)]) = None"
  proof (rule re_try_all_fail)
    fix n assume "n \<in> set (rev [lo ..< length (takeWhile cls s)])"
    then have "n < length (takeWhile cls s)" by simp
    then obtain x xs where "drop n s = x # xs" and "cls x"
      using drop_in_run by blast
    then show "re_items rest (drop n s) (if captured then take n s else grp) = None"
      using assms by simp
  qed
  then show ?thesis
    using assms(2) by (simp add: re_items_greedy split: option.splits)
qed

lemma module_run:
  "re_items [Rep (Suc 0) None True True is_module_char] t grp =
     (if takeWhile is_module_char t \<noteq> []
      then Some (takeWhile is_module_char t, dropWhile is_module_char t) else None)"
  by (cases "takeWhile is_module_char t") (simp_all add: re_items_greedy)

lemma module_run_after_space:
  "isspace x \<Longrightarrow> re_items [Rep (Suc 0) None True True is_module_char] (x # xs) grp = None"
  by (simp add: module_run is_module_char_def)

lemma space_then_module:
  "re_items [Rep (Suc 0) None True False isspace, Rep (Suc 0) None True True is_module_char] r grp =
     (if takeWhile isspace r \<noteq> [] \<and> takeWhile is_module_char (dropWhile isspace r) \<noteq> []
      then Some (takeWhile is_module_char (dropWhile isspace r),
                 dropWhile is_module_char (dropWhile isspace r))
      else None)"
proof -
  have "re_items [Rep (Suc 0) None True False isspace, Rep (Suc 0) None True True is_module_char] r grp =
     (if Suc 0 \<le> length (takeWhile isspace r)
      then re_items [Rep (Suc 0) None True True is_module_char] (dropWhile isspace r) grp else None)"
    by (rule re_items_greedy_only) (simp_all add: module_run_after_space)
  then show ?thesis
    by (cases "takeWhile isspace r") (simp_all add: module_run)
qed

lemma re_match_import: "re_match import_rx line = match_import line"
proof (cases "prefix ''import'' line")
  case False
  then show ?thesis by (simp add: re_match_def import_rx_def match_import_def)
next
  case True
  show ?thesis
  proof (cases "drop (length ''import'') line")
    case Nil
    with True show ?thesis
      by (simp add: re_match_def import_rx_def match_import_def space_then_module
         )
  next
    case (Cons c r)
    with True show ?thesis
      by (simp add: re_match_def import_rx_def match_import_def space_then_module Let_def
         )
  qed
qed

lemma space_then_import:
  "re_items [Rep (Suc 0) None True False isspace, Literal ''import''] u grp =
     (if takeWhile isspace u \<noteq> [] \<and> prefix ''import'' (dropWhile isspace u)
      then Some (grp, drop (length ''import'') (dropWhile isspace u)) else None)"
proof -
  have "re_items [Literal ''import''] (x # xs) grp = None" if "isspace x" for x xs
    using that by (auto simp add: isspace_def whitespace_chars_def)
  then have "re_items [Rep (Suc 0) None True False isspace, Literal ''import''] u grp =
     (if Suc 0 \<le> length (takeWhile isspace u)
      then re_items [Literal ''import''] (dropWhile isspace u) grp else None)"
    by (intro re_items_greedy_only) simp_all
  then show ?thesis
    by (cases "takeWhile isspace u") simp_all
qed

lemma module_then_import:
  "re_items [Rep (Suc 0) None True True is_module_char, Rep (Suc 0) None True False isspace, Literal ''import''] t grp =
     (if takeWhile is_module_char t \<noteq> [] then
        re_items [Rep (Suc 0) None True False isspace, Literal ''import'']
          (dropWhile is_module_char t) (takeWhile is_module_char t)
      else None)"
proof -
  have fail: "re_items [Rep (Suc 0) None True False isspace, Literal ''import''] (drop n t) g = None"
    if "n < length (takeWhile is_module_char t)" for n g
  proof -
    from that obtain x xs where "drop n t = x # xs" and "is_module_char x"
      using drop_in_run by blast
    then show ?thesis
      by (simp add: space_then_import is_module_char_def)
  qed
  have "re_try [Rep (Suc 0) None True False isspace, Literal ''import''] True t grp
          (rev [Suc 0 ..< length (takeWhile is_module_char t)]) = None"
    by (rule re_try_all_fail) (simp add: fail)
  then show ?thesis
    by (cases "takeWhile is_module_char t")
      (simp_all add: re_items_greedy split: option.splits)
qed

lemma from_tail:
  "re_items [Rep (Suc 0) None True False isspace, Rep (Suc 0) None True True is_module_char,
             Rep (Suc 0) None True False isspace, Literal ''import''] r grp =
     (if takeWhile isspace r \<noteq> [] then
        re_items [Rep (Suc 0) None True True is_module_char, Rep (Suc 0) None True False isspace,
                  Literal ''import''] (dropWhile isspace r) grp
      else None)"
proof -
  have "re_items [Rep (Suc 0) None True True is_module_char, Rep (Suc 0) None True False isspace,
                  Literal ''import''] (x # xs) grp = None" if "isspace x" for x xs
    using that by (simp add: module_then_import is_module_char_def)
  then have "re_items [Rep (Suc 0) None True False isspace, Rep (Suc 0) None True True is_module_char,
             Rep (Suc 0) None True False isspace, Literal ''import''] r grp =
     (if Suc 0 \<le> length (takeWhile isspace r) then
        re_items [Rep (Suc 0) None True True is_module_char, Rep (Suc 0) None True False isspace,
                  Literal ''import''] (dropWhile isspace r) grp
      else None)"
    by (intro re_items_greedy_only) simp_all
  then show ?thesis
    by (cases "takeWhile isspace r") simp_all
qed

lemma space_run_cases:
  "(takeWhile isspace u \<noteq> [] \<and> P (dropWhile isspace u))
     = (case u of [] \<Rightarrow> False | d # r2 \<Rightarrow> isspace d \<and> P (dropWhile isspace r2))"
  by (cases u) auto

lemma from_closed:
  "re_items [Rep (Suc 0) None True False isspace, Rep (Suc 0) None True True is_module_char,
             Rep (Suc 0) None True False isspace, Literal ''import''] (c # r) grp =
     (if isspace c then
        (if takeWhile is_module_char (dropWhile isspace r) \<noteq> [] then
           (case dropWhile is_module_char (dropWhile isspace r) of
              [] \<Rightarrow> None
            | d # r2 \<Rightarrow>
                if isspace d \<and> prefix ''import'' (dropWhile isspace r2)
                then Some (takeWhile is_module_char (dropWhile isspace r),
                           drop (length ''import'') (dropWhile isspace r2))
                else None)
         else None)
      else None)"
proof (cases "isspace c")
  case False
  then show ?thesis by (simp add: from_tail)
next
  case True
  define u where "u = dropWhile is_module_char (dropWhile isspace r)"
  define tok where "tok = takeWhile is_module_char (dropWhile isspace r)"
  have step: "re_items [Rep (Suc 0) None True False isspace, Literal ''import''] u tok =
          (case u of
              [] \<Rightarrow> None
            | d # r2 \<Rightarrow>
                if isspace d \<and> prefix ''import'' (dropWhile isspace r2)
                then Some (tok, drop (length ''import'') (dropWhile isspace r2))
                else None)"
    by (cases u) (simp_all add: space_then_import)
  show ?thesis
    using True step [unfolded u_def tok_def] by (simp add: from_tail module_then_import)
qed

lemma map_option_if_None:
  "map_option f (if b then x else None) = (if b then map_option f x else None)"
  by simp

lemma map_option_fst_tail:
  "map_option fst (case u of [] \<Rightarrow> None
                   | d # r2 \<Rightarrow> if Q d r2 then Some (tok, R r2) else None)
     = (case u of [] \<Rightarrow> None | d # r2 \<Rightarrow> if Q d r2 then Some tok else None)"
  by (cases u) simp_all

lemma re_match_from: "re_match from_rx line = match_from line"
proof (cases "prefix ''from'' line")
  case False
  then show ?thesis by (simp add: re_match_def from_rx_def match_from_def)
next
  case True
  show ?thesis
  proof (cases "drop (length ''from'') line")
    case Nil
    with True show ?thesis
      by (simp add: re_match_def from_rx_def match_from_def from_tail)
  next
    case (Cons c r)
    have "re_match from_rx line
        = map_option fst (re_items [Rep (Suc 0) None True False isspace,
             Rep (Suc 0) None True True is_module_char,
             Rep (Suc 0) None True False isspace, Literal ''import''] (c # r) [])"
      using True Cons by (simp add: re_match_def from_rx_def)
    also have "\<dots> = match_from line"
      unfolding from_closed match_from_def Let_def map_option_if_None map_option_fst_tail
      using True Cons by simp
    finally show ?thesis .
  qed
qed

lemma import_excludes_from: "match_import line = Some tok \<Longrightarrow> match_from line = None"
proof -
  assume "match_import line = Some tok"
  then have "prefix ''import'' line"
    by (simp add: match_import_def split: if_splits)
  then have "\<not> prefix ''from'' line"
    by (cases line) auto
  then show ?thesis by (simp add: match_from_def)
qed

lemma tally_patterns_count:
  "dict_get (tally_patterns import_patterns line import_counts) m 0
     = dict_get import_counts m 0 + (if imported_module line = Some m then 1 else 0)"
proof (cases "match_import line")
  case None
  then show ?thesis
    by (cases "match_from line")
      (auto simp add: import_patterns_def re_match_import re_match_from imported_module_def
         Let_def dict_get_dict_set)
next
  case (Some tok)
  then have "match_from line = None" by (rule import_excludes_from)
  with Some show ?thesis
    by (auto simp add: import_patterns_def re_match_import re_match_from imported_module_def
        Let_def dict_get_dict_set)
qed

lemma tally_lines_count:
  "dict_get (tally_lines raws import_counts) m 0
     = dict_get import_counts m 0
       + length (filter (\<lambda>raw. imported_module (strip raw) = Some m) raws)"
  by (induction raws arbitrary: import_counts) (simp_all add: tally_patterns_count)

lemma tally_files_count:
  "dict_get (tally_files e files import_counts) m 0
     = dict_get import_counts m 0 + sum_list (map (file_import_count e m) files)"
proof (induction files arbitrary: import_counts)
  case Nil
  show ?case by simp
next
  case (Cons file_path rest)
  show ?case
  proof (cases "read_file_content e file_path")
    case (Inl err)
    then show ?thesis using Cons.IH [of import_counts] by (simp add: file_import_count_def)
  next
    case (Inr content)
    then show ?thesis
      using Cons.IH [of "tally_lines (split_on NL content) import_counts"]
      by (simp add: file_import_count_def tally_lines_count)
  qed
qed

text \<open>
  The tally of a module is the number of lines, over the files that \<open>_get_python_files\<close>
  returns and \<open>_read_file_content\<close> reads (a file that cannot be read is logged and
  passed over), whose trimmed text matches \<open>import <module>\<close> or \<open>from <module> import\<close>
  with that module as the part of the token before its first dot. A line matches at most
  one of the two patterns, so it counts once.
\<close>

theorem import_tally_counts_matching_lines:
  "dict_get (analyze_imports e root_directory) m 0
     = sum_list (map (file_import_count e m) (get_python_files e root_directory))"
proof -
  have "dict_get ([] :: (string \<times> nat) list) m 0 = 0"
    by (simp add: dict_get_def)
  then show ?thesis
    by (simp add: analyze_imports_def tally_files_count)
qed

lemma imports_env_files:
  "get_python_files imports_env (Some (Path ''/'' [''proj''])) = [Path ''/'' [''proj'', ''main.py'']]"
  by (simp add: get_python_files_def imports_env_def plain_env_def PYTHON_EXTENSIONS_def
      rglob_def glob_node_def lookup_def child_def joinpath_def parse_path_def path_anchor_def
      startswith_def endswith_def is_absolute_def split_on.simps parts_def suffix_to_prefix
      EXCLUDE_DIRS_def Let_def)

lemma imports_env_content:
  "read_file_content imports_env (Path ''/'' [''proj'', ''main.py'']) = Inr imports_example"
  by (simp add: read_file_content_def lookup_def imports_env_def plain_env_def
      is_absolute_def MAX_FILE_SIZE_def open_read_def)

lemma split_imports_example:
  "split_on NL imports_example = [''import os'', ''from os.path import join'']"
  by (simp add: imports_example_def NL_def split_on.simps)

lemma imports_example_modules:
  "imported_module (strip ''import os'') = Some ''os''"
  "imported_module (strip ''from os.path import join'') = Some ''os''"
  by (simp_all add: imported_module_def match_import_def match_from_def strip_def strip_with_def
      isspace_def whitespace_chars_def is_module_char_def)

theorem import_tally_counts_matching_lines_witness:
  "split_on NL imports_example = [''import os'', ''from os.path import join'']
   \<and> analyze_imports imports_env (Some (Path ''/'' [''proj''])) = [(''os'', 2)]
   \<and> dict_get (analyze_imports imports_env (Some (Path ''/'' [''proj'']))) ''os'' 0 = 2"
proof -
  have "analyze_imports imports_env (Some (Path ''/'' [''proj''])) = [(''os'', 2)]"
    by (simp add: analyze_imports_def imports_env_files imports_env_content split_imports_example
        import_patterns_def re_match_import re_match_from match_import_def match_from_def
        strip_def strip_with_def
        isspace_def whitespace_chars_def is_module_char_def dict_get_def Let_def)
  moreover have "dict_get (analyze_imports imports_env (Some (Path ''/'' [''proj'']))) ''os'' 0 = 2"
    using import_tally_counts_matching_lines [of imports_env "Some (Path ''/'' [''proj''])" "''os''"]
    by (simp add: imports_env_files file_import_count_def imports_env_content
        split_imports_example imports_example_modules)
  ultimately show ?thesis by (simp add: split_imports_example)
qed

lemma build_env_index:
  "get_python_files build_env (Some (Path ''/'' [''srv'', ''build'', ''app''])) = []"
  "get_python_files build_env (Some (Path ''/'' [''srv'', ''work'', ''app'']))
       = [Path ''/'' [''srv'', ''work'', ''app'', ''lib'', ''util.py''],
          Path ''/'' [''srv'', ''work'', ''app'', ''main.py'']]"
proof -
  have order: "py_ext_order build_env = [''.py'', ''.pyx'', ''.pyi'']"
    by (simp add: build_env_def plain_env_def PYTHON_EXTENSIONS_def)
  show "get_python_files build_env (Some (Path ''/'' [''srv'', ''build'', ''app''])) = []"
    by (simp add: get_python_files_def order build_env_rglob Let_def parts_def EXCLUDE_DIRS_def)
  show "get_python_files build_env (Some (Path ''/'' [''srv'', ''work'', ''app'']))
       = [Path ''/'' [''srv'', ''work'', ''app'', ''lib'', ''util.py''],
          Path ''/'' [''srv'', ''work'', ''app'', ''main.py'']]"
    by (simp add: get_python_files_def order work_env_rglob Let_def parts_def EXCLUDE_DIRS_def)
qed

lemma build_env_content:
  "read_file_content build_env (Path ''/'' [''srv'', ''build'', ''app'', ''main.py'']) = Inr ''import os''"
  "read_file_content build_env (Path ''/'' [''srv'', ''work'', ''app'', ''main.py'']) = Inr ''import os''"
  "read_file_content build_env (Path ''/'' [''srv'', ''work'', ''app'', ''lib'', ''util.py'']) = Inr ''import sys''"
  by (simp_all add: read_file_content_def lookup_def build_env_def plain_env_def app_tree_def
      is_absolute_def MAX_FILE_SIZE_def open_read_def)

lemma import_line_tally:
  "tally_lines (split_on NL ''import os'') [] = [(''os'', 1)]"
  "tally_lines (split_on NL ''import sys'') [] = [(''sys'', 1)]"
  "tally_lines (split_on NL ''import os'') [(''sys'', 1)] = [(''sys'', 1), (''os'', 1)]"
  by (simp_all add: NL_def split_on.simps import_patterns_def re_match_import re_match_from
      match_import_def match_from_def strip_def strip_with_def isspace_def whitespace_chars_def
      is_module_char_def dict_get_def Let_def)

text \<open>
  Claim C5 at a failing input. With the root \<open>/srv/build/app\<close>, the source file \<open>main.py\<close>
  holds the line \<open>import os\<close>, which the tally of one file counts for \<open>os\<close>, and the
  tally of the project is empty: \<open>_analyze_imports\<close> reads the files that
  \<open>_get_python_files\<close> returns, and that index drops every file below a root whose own
  path has an excluded component. The same tree at \<open>/srv/work/app\<close> tallies \<open>sys\<close> and
  \<open>os\<close> once each.
\<close>

theorem import_tally_empty_under_excluded_root:
  "read_file_content build_env (Path ''/'' [''srv'', ''build'', ''app'', ''main.py'']) = Inr ''import os''
   \<and> tally_lines (split_on NL ''import os'') [] = [(''os'', 1)]
   \<and> analyze_imports build_env (Some (Path ''/'' [''srv'', ''build'', ''app''])) = []
   \<and> analyze_imports build_env (Some (Path ''/'' [''srv'', ''work'', ''app'']))
       = [(''sys'', 1), (''os'', 1)]"
  by (simp only: analyze_imports_def build_env_index tally_files.simps build_env_content
      sum.case import_line_tally simp_thms)

subsection \<open>The code search\<close>

lemma str_in_iff: "str_in q s \<longleftrightarrow> (\<exists>a b. s = a @ q @ b)"
proof (induction s)
  case Nil
  show ?case by auto
next
  case (Cons x xs)
  show ?case
  proof
    assume "str_in q (x # xs)"
    then consider "prefix q (x # xs)" | "str_in q xs" by auto
    then show "\<exists>a b. x # xs = a @ q @ b"
    proof cases
      case 1
      then obtain b where "x # xs = q @ b" by (auto simp: prefix_def)
      then have "x # xs = [] @ q @ b" by simp
      then show ?thesis by blast
    next
      case 2
      with Cons.IH obtain a b where "xs = a @ q @ b" by blast
      then have "x # xs = (x # a) @ q @ b" by simp
      then show ?thesis by blast
    qed
  next
    assume "\<exists>a b. x # xs = a @ q @ b"
    then obtain a b where ab: "x # xs = a @ q @ b" by blast
    show "str_in q (x # xs)"
    proof (cases a)
      case Nil
      with ab have "prefix q (x # xs)" by (simp add: prefix_def)
      then show ?thesis by simp
    next
      case (Cons y ys)
      with ab have "xs = ys @ q @ b" by simp
      with Cons.IH have "str_in q xs" by blast
      then show ?thesis by simp
    qed
  qed
qed

lemma numbered_from_Cons: "numbered_from n (x # xs) = (n, x) # numbered_from (Suc n) xs"
proof -
  have "[n ..< n + length (x # xs)] = n # [Suc n ..< Suc n + length xs]"
    by (subst upt_rec) simp
  then show ?thesis
    unfolding numbered_from_def by simp
qed

lemma search_lines_matches:
  "search_lines root file_path query case_sensitive n lines matches =
     (case relative_to file_path root of
        Inl err \<Rightarrow> matches
      | Inr rel_path \<Rightarrow>
          matches @ map (match_record rel_path)
            (filter (\<lambda>(k, line). line_matches query case_sensitive line) (numbered_from n lines)))"
proof (induction lines arbitrary: n matches)
  case Nil
  show ?case by (simp add: numbered_from_def split: sum.splits)
next
  case (Cons line rest)
  show ?case
  proof (cases "relative_to file_path root")
    case (Inl err)
    then show ?thesis
      using Cons.IH [of "Suc n" matches]
      by (simp add: Let_def)
  next
    case (Inr rel_path)
    then show ?thesis
      using Cons.IH [of "Suc n"]
      by (simp add: Let_def numbered_from_Cons line_matches_def match_record_def)
  qed
qed

lemma search_files_matches:
  "search_files e root query case_sensitive files matches
     = matches @ concat (map (file_matches e root query case_sensitive) files)"
proof (induction files arbitrary: matches)
  case Nil
  show ?case by simp
next
  case (Cons file_path rest)
  show ?case
    by (simp add: Cons.IH search_lines_matches file_matches_def split: sum.splits)
qed

text \<open>
  Claim C6. The matches of a search are, file by file in the order of the index (as
  narrowed by the file pattern) and line by line in ascending order, the records of the
  lines of which the query is a substring, compared in lower case unless the search is
  case sensitive; each record holds the path relative to the root, the number of the
  line counted from 1 and the trimmed line. The text returned reports the length of that
  whole list and shows its first 50 records, with the number of the others when there
  are more. The query \<open>TODO\<close> matches the line \<open># todo: fix\<close> when the search is not case
  sensitive, and does not when it is.
\<close>

theorem search_matches_in_order:
  "search_matches e root query case_sensitive file_pattern
     = concat (map (file_matches e root query case_sensitive)
         (pattern_filter e file_pattern (get_python_files e (Some root))))
   \<and> search_code e (Some root) query case_sensitive file_pattern
     = (let matches = search_matches e root query case_sensitive file_pattern in
        if matches = [] then [TextContent (''No matches found for '' @ quoted query)]
        else [TextContent
          (''Found '' @ str_nat (length matches) @ '' matches for '' @ quoted query @ '':''
           @ [NL, NL] @ concat (map match_text (take 50 matches))
           @ (if 50 < length matches
              then [NL] @ ''... and '' @ str_nat (length matches - 50) @ '' more matches''
              else []))])
   \<and> line_matches query True line = (\<exists>a b. line = a @ query @ b)
   \<and> line_matches query False line = (\<exists>a b. lower line = a @ lower query @ b)
   \<and> line_matches ''TODO'' False ''# todo: fix''
   \<and> \<not> line_matches ''TODO'' True ''# todo: fix''"
proof -
  have "line_matches ''TODO'' False ''# todo: fix''"
    by (simp add: line_matches_def lower_def lower_char_def upper_chars_def lower_chars_def)
  moreover have "\<not> line_matches ''TODO'' True ''# todo: fix''"
    by (simp add: line_matches_def)
  ultimately show ?thesis
    by (simp add: search_matches_def search_files_matches search_code_def search_result_def
        line_matches_def str_in_iff Let_def)
qed

lemma todo_env_files:
  "get_python_files todo_env (Some (Path ''/'' [''proj''])) = [Path ''/'' [''proj'', ''main.py'']]"
  by (simp add: get_python_files_def todo_env_def plain_env_def PYTHON_EXTENSIONS_def
      rglob_def glob_node_def lookup_def child_def joinpath_def parse_path_def path_anchor_def
      startswith_def endswith_def is_absolute_def split_on.simps parts_def suffix_to_prefix
      EXCLUDE_DIRS_def Let_def)

lemma todo_env_content:
  "read_file_content todo_env (Path ''/'' [''proj'', ''main.py'']) = Inr todo_example"
  by (simp add: read_file_content_def lookup_def todo_env_def plain_env_def
      is_absolute_def MAX_FILE_SIZE_def open_read_def)

lemma split_todo_example:
  "split_on NL todo_example = [''import os'', [], ''    # todo: fix'', ''x = 1'']"
  by (simp add: todo_example_def NL_def split_on.simps)

lemma todo_file_matches:
  "file_matches todo_env (Path ''/'' [''proj'']) ''TODO'' False (Path ''/'' [''proj'', ''main.py''])
     = [\<lparr>match_file = ''main.py'', match_line = 3, match_content = ''# todo: fix''\<rparr>]"
  "file_matches todo_env (Path ''/'' [''proj'']) ''TODO'' True (Path ''/'' [''proj'', ''main.py'']) = []"
  by (simp_all add: file_matches_def todo_env_content split_todo_example relative_to_def
      numbered_from_def upt_rec line_matches_def lower_def lower_char_def upper_chars_def
      lower_chars_def match_record_def str_path_def strip_def strip_with_def isspace_def
      whitespace_chars_def)

theorem search_matches_in_order_witness:
  "split_on NL todo_example = [''import os'', [], ''    # todo: fix'', ''x = 1'']
   \<and> search_matches todo_env (Path ''/'' [''proj'']) ''TODO'' False None
       = [\<lparr>match_file = ''main.py'', match_line = 3, match_content = ''# todo: fix''\<rparr>]
   \<and> search_matches todo_env (Path ''/'' [''proj'']) ''TODO'' True None = []
   \<and> search_code todo_env (Some (Path ''/'' [''proj''])) ''TODO'' False None
       = [TextContent (''Found 1 matches for '' @ quoted ''TODO'' @ '':'' @ [NL, NL]
            @ ''main.py:3: # todo: fix'' @ [NL])]
   \<and> search_code todo_env (Some (Path ''/'' [''proj''])) ''TODO'' True None
       = [TextContent (''No matches found for '' @ quoted ''TODO'')]"
proof -
  have a: "search_matches todo_env (Path ''/'' [''proj'']) ''TODO'' False None
       = [\<lparr>match_file = ''main.py'', match_line = 3, match_content = ''# todo: fix''\<rparr>]"
    using search_matches_in_order [of todo_env "Path ''/'' [''proj'']" "''TODO''" False None]
    by (simp add: pattern_filter_def todo_env_files todo_file_matches)
  have b: "search_matches todo_env (Path ''/'' [''proj'']) ''TODO'' True None = []"
    using search_matches_in_order [of todo_env "Path ''/'' [''proj'']" "''TODO''" True None]
    by (simp add: pattern_filter_def todo_env_files todo_file_matches)
  show ?thesis
    by (simp add: split_todo_example a b search_code_def search_result_def match_text_def
        str_nat.simps digit_char_def)
qed

subsection \<open>The directory tree\<close>

lemma join_Cons: "ys \<noteq> [] \<Longrightarrow> join sep (x # ys) = x @ sep @ join sep ys"
  by (cases ys) simp_all

lemma join_append:
  "xs \<noteq> [] \<Longrightarrow> ys \<noteq> [] \<Longrightarrow> join sep (xs @ ys) = join sep xs @ sep @ join sep ys"
proof (induction xs)
  case Nil
  then show ?case by simp
next
  case (Cons x xs)
  show ?case
  proof (cases "xs = []")
    case True
    with Cons.prems show ?thesis by (simp add: join_Cons)
  next
    case False
    with Cons show ?thesis by (simp add: join_Cons)
  qed
qed

lemma join_nonempty:
  "xs \<noteq> [] \<Longrightarrow> [] \<notin> set xs \<Longrightarrow> join sep xs \<noteq> []"
proof -
  assume a: "xs \<noteq> []" and b: "[] \<notin> set xs"
  then obtain x ys where xs: "xs = x # ys" by (cases xs) auto
  with b have "x \<noteq> []" by auto
  then show ?thesis by (cases ys) (simp_all add: xs)
qed

lemma same_text_append:
  assumes "same_text sep ps qs" and "same_text sep ps' qs'"
  shows "same_text sep (ps @ ps') (qs @ qs')"
proof (cases "ps = []")
  case True
  with assms show ?thesis by (simp add: same_text_def)
next
  case False
  then have qs: "qs \<noteq> []" using assms(1) by (simp add: same_text_def)
  show ?thesis
  proof (cases "ps' = []")
    case True
    with assms show ?thesis by (simp add: same_text_def)
  next
    case False
    then have "qs' \<noteq> []" using assms(2) by (simp add: same_text_def)
    with \<open>ps \<noteq> []\<close> \<open>ps' \<noteq> []\<close> qs assms show ?thesis
      by (simp add: same_text_def join_append)
  qed
qed

lemma same_text_concat:
  "(\<And>x. x \<in> set xs \<Longrightarrow> same_text sep (f x) (g x)) \<Longrightarrow>
     same_text sep (concat (map f xs)) (concat (map g xs))"
proof (induction xs)
  case Nil
  show ?case by (simp add: same_text_def)
next
  case (Cons x xs)
  then show ?case by (simp add: same_text_append)
qed

lemma icons_nonempty: "ICON_FOLDER \<noteq> []" "ICON_DENIED \<noteq> []" "get_file_icon p \<noteq> []"
  by (simp_all add: ICON_FOLDER_def ICON_DENIED_def get_file_icon_def ICON_PYTHON_def ICON_CONFIG_def
      ICON_DOC_def ICON_PACKAGE_def ICON_FILE_def Let_def)

lemma lines_nonempty:
  "dir_line level name \<noteq> []" "file_line level name item \<noteq> []" "denied_line level \<noteq> []"
  by (simp_all add: dir_line_def file_line_def denied_line_def icons_nonempty)

lemma render_lines_nonempty: "[] \<notin> set (render_lines max_depth include_hidden current_depth n)"
proof (induction max_depth include_hidden current_depth n rule: render_lines.induct)
  case (1 max_depth include_hidden current_depth sz t)
  show ?case by simp
next
  case (2 max_depth include_hidden current_depth sz l es)
  show ?case
  proof (cases "max_depth \<le> int current_depth \<or> \<not> l")
    case True
    then show ?thesis by (auto simp add: lines_nonempty lines_nonempty [symmetric])
  next
    case False
    then have run: "\<not> max_depth \<le> int current_depth" "\<not> \<not> l" by auto
    let ?g = "\<lambda>(name, item).
             if skipped include_hidden (name, item) then []
             else if is_dir_node item then
               dir_line current_depth name #
                 (if int current_depth < max_depth - 1
                  then render_lines max_depth include_hidden (current_depth + 1) item
                  else [])
             else [file_line current_depth name item]"
    have piece: "[] \<notin> set (?g x)" if x: "x \<in> set (sorted_items es)" for x
    proof -
      obtain name item where xi: "x = (name, item)" by (cases x)
      show ?thesis
        using "2.IH" [OF run x xi [symmetric]]
        by (auto simp add: xi lines_nonempty lines_nonempty [symmetric])
    qed
    show ?thesis
    proof
      assume "[] \<in> set (render_lines max_depth include_hidden current_depth (Dir sz l es))"
      with run have "[] \<in> set (concat (map ?g (sorted_items es)))" by simp
      then obtain x where "x \<in> set (sorted_items es)" and "[] \<in> set (?g x)" by auto
      with piece show False by blast
    qed
  qed
qed

lemma build_tree_node_join:
  "build_tree_node max_depth include_hidden current_depth n
     = join [NL] (render_lines max_depth include_hidden current_depth n)"
proof (induction max_depth include_hidden current_depth n rule: build_tree_node.induct)
  case (1 max_depth include_hidden current_depth sz t)
  show ?case by simp
next
  case (2 max_depth include_hidden current_depth sz l es)
  show ?case
  proof (cases "max_depth \<le> int current_depth \<or> \<not> l")
    case True
    then show ?thesis by auto
  next
    case False
    then have run: "\<not> max_depth \<le> int current_depth" "\<not> \<not> l" by auto
    let ?f = "\<lambda>(name, item).
             if skipped include_hidden (name, item) then []
             else if is_dir_node item then
               dir_line current_depth name #
                 (if int current_depth < max_depth - 1 then
                    (let subtree = build_tree_node max_depth include_hidden (current_depth + 1) item
                     in if subtree \<noteq> [] then [subtree] else [])
                  else [])
             else [file_line current_depth name item]"
    let ?g = "\<lambda>(name, item).
             if skipped include_hidden (name, item) then []
             else if is_dir_node item then
               dir_line current_depth name #
                 (if int current_depth < max_depth - 1
                  then render_lines max_depth include_hidden (current_depth + 1) item
                  else [])
             else [file_line current_depth name item]"
    have "same_text [NL] (?f x) (?g x)" if x: "x \<in> set (sorted_items es)" for x
    proof -
      obtain name item where xi: "x = (name, item)" by (cases x)
      show ?thesis
      proof (cases "\<not> skipped include_hidden (name, item) \<and> is_dir_node item
                     \<and> int current_depth < max_depth - 1")
        case False
        then show ?thesis by (auto simp add: xi same_text_def)
      next
        case True
        then have ih: "build_tree_node max_depth include_hidden (current_depth + 1) item
            = join [NL] (render_lines max_depth include_hidden (current_depth + 1) item)"
          using "2.IH" [OF run x xi [symmetric]] by simp
        show ?thesis
        proof (cases "render_lines max_depth include_hidden (current_depth + 1) item = []")
          case True
          with \<open>\<not> skipped include_hidden (name, item) \<and> is_dir_node item
                     \<and> int current_depth < max_depth - 1\<close> ih
          show ?thesis by (simp add: xi same_text_def)
        next
          case False
          then have "join [NL] (render_lines max_depth include_hidden (current_depth + 1) item) \<noteq> []"
            using render_lines_nonempty by (rule join_nonempty)
          with False \<open>\<not> skipped include_hidden (name, item) \<and> is_dir_node item
                     \<and> int current_depth < max_depth - 1\<close> ih
          show ?thesis by (simp add: xi same_text_def join_Cons)
        qed
      qed
    qed
    then have "same_text [NL] (concat (map ?f (sorted_items es))) (concat (map ?g (sorted_items es)))"
      by (rule same_text_concat)
    then show ?thesis
      using run by (simp add: same_text_def)
  qed
qed

lemma render_lines_past_depth:
  "max_depth \<le> int current_depth \<Longrightarrow> render_lines max_depth include_hidden current_depth n = []"
  by (cases n) simp_all

lemma render_lines_listed:
  assumes "\<not> max_depth \<le> int current_depth"
  shows "render_lines max_depth include_hidden current_depth (Dir sz True es)
     = concat (map (\<lambda>(name, item).
         if skipped include_hidden (name, item) then []
         else entry_line (current_depth, name, item)
                # render_lines max_depth include_hidden (Suc current_depth) item)
         (sorted_items es))"
proof -
  have "(if skipped include_hidden (name, item) then []
         else if is_dir_node item then
           dir_line current_depth name #
             (if int current_depth < max_depth - 1
              then render_lines max_depth include_hidden (current_depth + 1) item
              else [])
         else [file_line current_depth name item])
      = (if skipped include_hidden (name, item) then []
         else entry_line (current_depth, name, item)
                # render_lines max_depth include_hidden (Suc current_depth) item)"
    for name item
  proof (cases item)
    case (File sz' t)
    then show ?thesis by (simp add: entry_line_def)
  next
    case (Dir sz' l' es')
    show ?thesis
    proof (cases "int current_depth < max_depth - 1")
      case True
      then show ?thesis by (simp add: entry_line_def Dir)
    next
      case False
      then have "max_depth \<le> int (Suc current_depth)" by simp
      then have "render_lines max_depth include_hidden (Suc current_depth) item = []"
        by (rule render_lines_past_depth)
      with False show ?thesis by (simp add: entry_line_def Dir)
    qed
  qed
  then show ?thesis using assms by simp
qed

lemma mset_concat_map_cong:
  "mset xs = mset ys \<Longrightarrow> mset (concat (map f xs)) = mset (concat (map f ys))"
proof -
  assume a: "mset xs = mset ys"
  have "mset (concat (map f zs)) = sum_mset (image_mset (\<lambda>z. mset (f z)) (mset zs))" for zs
    by (induction zs) simp_all
  with a show ?thesis by simp
qed

lemma mset_concat_map_pointwise:
  "(\<And>x. x \<in> set xs \<Longrightarrow> mset (f x) = mset (g x)) \<Longrightarrow>
     mset (concat (map f xs)) = mset (concat (map g xs))"
  by (induction xs) simp_all

lemma render_lines_entries:
  "plain_within include_hidden k n \<Longrightarrow> k = nat (max_depth - int current_depth) \<Longrightarrow>
     mset (render_lines max_depth include_hidden current_depth n)
       = mset (map entry_line (entries_within k current_depth n))"
proof (induction k arbitrary: n current_depth)
  case 0
  then have "max_depth \<le> int current_depth" by simp
  then have "render_lines max_depth include_hidden current_depth n = []"
    by (rule render_lines_past_depth)
  then show ?case by (cases n) simp_all
next
  case (Suc k)
  show ?case
  proof (cases n)
    case (File sz t)
    then show ?thesis by simp
  next
    case (Dir sz l es)
    from Suc.prems(2) have run: "\<not> max_depth \<le> int current_depth" by simp
    from Suc.prems(2) have k: "k = nat (max_depth - int (Suc current_depth))" by simp
    from Suc.prems(1) Dir have l: "l"
      and items: "\<And>name item. (name, item) \<in> set es \<Longrightarrow>
                    \<not> skipped include_hidden (name, item) \<and> plain_within include_hidden k item"
      by (auto simp add: list_all_iff)
    let ?g = "\<lambda>(name, item).
         if skipped include_hidden (name, item) then []
         else entry_line (current_depth, name, item)
                # render_lines max_depth include_hidden (Suc current_depth) item"
    let ?h = "\<lambda>(name, item).
         map entry_line ((current_depth, name, item) # entries_within k (Suc current_depth) item)"
    have "mset (render_lines max_depth include_hidden current_depth n)
            = mset (concat (map ?g (sorted_items es)))"
      using l Dir render_lines_listed [OF run, of include_hidden sz es]
      by (simp del: render_lines.simps)
    also have "\<dots> = mset (concat (map ?g es))"
      by (rule mset_concat_map_cong) (simp add: sorted_items_def)
    also have "\<dots> = mset (concat (map ?h es))"
    proof (rule mset_concat_map_pointwise)
      fix x assume x: "x \<in> set es"
      obtain name item where xi: "x = (name, item)" by (cases x)
      from items [of name item] x xi have ns: "\<not> skipped include_hidden (name, item)"
        and pl: "plain_within include_hidden k item" by auto
      from Suc.IH [OF pl k] ns show "mset (?g x) = mset (?h x)"
        by (simp add: xi)
    qed
    also have "concat (map ?h es) = map entry_line (entries_within (Suc k) current_depth n)"
      by (simp add: Dir map_concat comp_def case_prod_unfold)
    finally show ?thesis .
  qed
qed

lemma entries_within_level:
  "(level, name, item) \<in> set (entries_within k lv n) \<Longrightarrow> lv \<le> level \<and> level < lv + k"
proof (induction k lv n arbitrary: level name item rule: entries_within.induct)
  case (1 k lv sz t)
  then show ?case by simp
next
  case (2 lv sz l es)
  then show ?case by simp
next
  case (3 k lv sz l es)
  from "3.prems" obtain name' item' where mem: "(name', item') \<in> set es"
    and "(level, name, item) = (lv, name', item')
         \<or> (level, name, item) \<in> set (entries_within k (Suc lv) item')"
    by auto
  then consider "level = lv" | "(level, name, item) \<in> set (entries_within k (Suc lv) item')"
    by auto
  then show ?case
  proof cases
    case 1
    then show ?thesis by simp
  next
    case 2
    from "3.IH" [OF mem refl 2] show ?thesis by simp
  qed
qed

lemma entries_within_levels:
  "list_all (\<lambda>(level, name, item). lv \<le> level \<and> level < lv + k) (entries_within k lv n)"
  unfolding list_all_iff using entries_within_level by fastforce

text \<open>
  Claim C7, as amended. With \<open>max_depth\<close> 0 the walk returns the empty text for every root
  and every environment. For a root directory in which, down to \<open>max_depth\<close> levels, every
  directory whose entries are reached can be listed and no entry is hidden or excluded,
  the text is the lines of \<open>render_lines\<close> joined by newlines, and these lines are, each
  once, the lines of the entries down to \<open>max_depth\<close> levels: the file line of every file
  and the directory line of every directory, whether it holds a file or not (the root
  itself has no line). Every such entry lies less than \<open>max_depth\<close> levels below the root's
  entries, so nothing deeper has a line.
\<close>

theorem tree_lines_one_per_entry:
  "build_directory_tree e root 0 include_hidden = Inr []
   \<and> (lookup e root = Some (Dir sz l es)
        \<and> plain_within include_hidden (nat max_depth) (Dir sz l es) \<longrightarrow>
      build_directory_tree e root max_depth include_hidden
        = Inr (join [NL] (render_lines max_depth include_hidden 0 (Dir sz l es)))
      \<and> mset (render_lines max_depth include_hidden 0 (Dir sz l es))
        = mset (map entry_line (entries_within (nat max_depth) 0 (Dir sz l es)))
      \<and> list_all (\<lambda>(level, name, item). level < nat max_depth)
           (entries_within (nat max_depth) 0 (Dir sz l es)))"
proof -
  have zero: "build_directory_tree e root 0 include_hidden = Inr []"
    by (simp add: build_directory_tree_def)
  have main: "build_directory_tree e root max_depth include_hidden
        = Inr (join [NL] (render_lines max_depth include_hidden 0 (Dir sz l es)))
      \<and> mset (render_lines max_depth include_hidden 0 (Dir sz l es))
        = mset (map entry_line (entries_within (nat max_depth) 0 (Dir sz l es)))
      \<and> list_all (\<lambda>(level, name, item). level < nat max_depth)
           (entries_within (nat max_depth) 0 (Dir sz l es))"
    if look: "lookup e root = Some (Dir sz l es)"
      and plain: "plain_within include_hidden (nat max_depth) (Dir sz l es)"
  proof -
    have a: "build_directory_tree e root max_depth include_hidden
        = Inr (join [NL] (render_lines max_depth include_hidden 0 (Dir sz l es)))"
    proof (cases "max_depth \<le> 0")
      case True
      then show ?thesis by (simp add: build_directory_tree_def)
    next
      case False
      then show ?thesis
        using look by (simp add: build_directory_tree_def build_tree_node_join del: build_tree_node.simps render_lines.simps)
    qed
    have b: "mset (render_lines max_depth include_hidden 0 (Dir sz l es))
        = mset (map entry_line (entries_within (nat max_depth) 0 (Dir sz l es)))"
      using plain by (rule render_lines_entries) simp
    have c: "list_all (\<lambda>(level, name, item). level < nat max_depth)
           (entries_within (nat max_depth) 0 (Dir sz l es))"
      using entries_within_levels [of 0 "nat max_depth" "Dir sz l es"] by simp
    from a b c show ?thesis by blast
  qed
  from zero main show ?thesis by blast
qed

lemmas tree_eval =
  sorted_items_def skipped_def startswith_def EXCLUDE_DIRS_def is_file_node_def
  lower_def lower_char_def upper_chars_def lower_chars_def

lemma walk_env_lookup: "lookup walk_env (Path ''/'' [''proj'']) = Some walk_tree"
  by (simp add: lookup_def walk_env_def plain_env_def is_absolute_def)

lemma walk_tree_plain: "plain_within False 2 walk_tree"
  by (simp add: walk_tree_def numeral_2_eq_2 tree_eval)

lemma walk_tree_lines:
  "render_lines 2 False 0 walk_tree
     = [dir_line 0 ''empty'', dir_line 0 ''src'', dir_line 1 ''core'',
        file_line 1 ''app.py'' (File 120 (Some ''import os'')),
        file_line 0 ''README.md'' (File 2048 (Some ''notes''))]"
  by (simp add: walk_tree_def tree_eval)

lemma walk_tree_entries:
  "entries_within 2 0 walk_tree
     = [(0, ''src'', Dir 4096 True
           [(''app.py'', File 120 (Some ''import os'')),
            (''core'', Dir 4096 True [(''deep.py'', File 5 (Some ''x = 1''))])]),
        (1, ''app.py'', File 120 (Some ''import os'')),
        (1, ''core'', Dir 4096 True [(''deep.py'', File 5 (Some ''x = 1''))]),
        (0, ''README.md'', File 2048 (Some ''notes'')),
        (0, ''empty'', Dir 4096 True [])]"
  by (simp add: walk_tree_def numeral_2_eq_2)

theorem tree_lines_one_per_entry_witness:
  "lookup walk_env (Path ''/'' [''proj'']) = Some walk_tree
   \<and> plain_within False 2 walk_tree
   \<and> build_directory_tree walk_env (Path ''/'' [''proj'']) 2 False
       = Inr (join [NL]
           [dir_line 0 ''empty'', dir_line 0 ''src'', dir_line 1 ''core'',
            file_line 1 ''app.py'' (File 120 (Some ''import os'')),
            file_line 0 ''README.md'' (File 2048 (Some ''notes''))])
   \<and> mset [dir_line 0 ''empty'', dir_line 0 ''src'', dir_line 1 ''core'',
            file_line 1 ''app.py'' (File 120 (Some ''import os'')),
            file_line 0 ''README.md'' (File 2048 (Some ''notes''))]
       = mset (map entry_line (entries_within 2 0 walk_tree))
   \<and> build_directory_tree walk_env (Path ''/'' [''proj'']) 0 False = Inr []"
proof -
  have look: "lookup walk_env (Path ''/'' [''proj''])
      = Some (Dir 4096 True
     [(''src'', Dir 4096 True
        [(''app.py'', File 120 (Some ''import os'')),
         (''core'', Dir 4096 True [(''deep.py'', File 5 (Some ''x = 1''))])]),
      (''README.md'', File 2048 (Some ''notes'')),
      (''empty'', Dir 4096 True [])])"
    using walk_env_lookup by (simp add: walk_tree_def)
  have plain: "plain_within False (nat 2) (Dir 4096 True
     [(''src'', Dir 4096 True
        [(''app.py'', File 120 (Some ''import os'')),
         (''core'', Dir 4096 True [(''deep.py'', File 5 (Some ''x = 1''))])]),
      (''README.md'', File 2048 (Some ''notes'')),
      (''empty'', Dir 4096 True [])])"
    using walk_tree_plain by (simp add: walk_tree_def)
  from tree_lines_one_per_entry [of walk_env "Path ''/'' [''proj'']" False 4096 True _ 2] look plain
  have "build_directory_tree walk_env (Path ''/'' [''proj'']) 0 False = Inr []
    \<and> build_directory_tree walk_env (Path ''/'' [''proj'']) 2 False
        = Inr (join [NL] (render_lines 2 False 0 walk_tree))
    \<and> mset (render_lines 2 False 0 walk_tree)
        = mset (map entry_line (entries_within (nat 2) 0 walk_tree))"
    unfolding walk_tree_def by blast
  then show ?thesis
    by (simp add: walk_env_lookup walk_tree_plain walk_tree_lines del: join.simps mset.simps)
qed

lemma odd_env_lookup: "lookup odd_env (Path ''/'' [''proj'']) = Some odd_tree"
  by (simp add: lookup_def odd_env_def plain_env_def is_absolute_def)

text \<open>
  Claim C7 as stated fails. In the project below, with \<open>max_depth\<close> 3, the only file is
  \<open>locked/notes.py\<close>, at depth 2, neither hidden nor excluded, and the only directory that
  contains a file is \<open>locked\<close>. The walk emits no file line at all, a line for the
  directory \<open>empty\<close>, which contains no file, and a denial line for \<open>locked\<close>, which may
  not be listed.
\<close>

theorem tree_lines_empty_and_locked_directory:
  "lookup odd_env (Path ''/'' [''proj'']) = Some odd_tree
   \<and> filter (\<lambda>(level, name, item). is_file_node item) (entries_within 3 0 odd_tree)
       = [(1, ''notes.py'', File 10 (Some ''import os''))]
   \<and> \<not> skipped False (''notes.py'', File 10 (Some ''import os''))
   \<and> \<not> skipped False (''locked'', Dir 4096 False [(''notes.py'', File 10 (Some ''import os''))])
   \<and> build_directory_tree odd_env (Path ''/'' [''proj'']) 3 False
       = Inr (join [NL] [dir_line 0 ''empty'', dir_line 0 ''locked'', denied_line 1])"
proof -
  have "build_directory_tree odd_env (Path ''/'' [''proj'']) 3 False
       = Inr (join [NL] [dir_line 0 ''empty'', dir_line 0 ''locked'', denied_line 1])"
    by (simp add: build_directory_tree_def odd_env_lookup odd_tree_def tree_eval Let_def
        lines_nonempty)
  moreover have "filter (\<lambda>(level, name, item). is_file_node item) (entries_within 3 0 odd_tree)
       = [(1, ''notes.py'', File 10 (Some ''import os''))]"
    by (simp add: odd_tree_def numeral_3_eq_3 is_file_node_def)
  ultimately show ?thesis
    by (simp add: odd_env_lookup tree_eval del: join.simps)
qed

end
